theory Spec2Isabelle
  imports Main
begin

section \<open>JSON values and Python's comparison of them\<close>

text \<open>
  Both modules work on what \<^verbatim>\<open>json.loads\<close> returns and on the module parameters:
  \<^verbatim>\<open>None\<close>, booleans, integers, strings, lists and string-keyed dictionaries.
  A dictionary is an association list in the iteration order of its keys, read with
  \<open>map_of\<close> as \<^verbatim>\<open>d[k]\<close> and \<^verbatim>\<open>d.get(k)\<close> read it. Floating point numbers are not
  part of the model.
\<close>

datatype json =
    JNull
  | JBool bool
  | JInt int
  | JStr string
  | JList "json list"
  | JDict "(string \<times> json) list"

datatype error =
    AttributeError
  | KeyError string
  | TypeError
  | IndexError
  | ValueError
  | ConnectionError string
  | RequestError string

text \<open>\<^verbatim>\<open>True == 1\<close> and \<^verbatim>\<open>False == 0\<close> hold in Python: a boolean is a number.\<close>

fun num_of :: "json \<Rightarrow> int option" where
  "num_of (JBool b) = Some (if b then 1 else 0)"
| "num_of (JInt i) = Some i"
| "num_of _ = None"

lemma map_of_size_less:
  "map_of d k = Some v \<Longrightarrow> size v < Suc (size_list (size_prod (\<lambda>_. 0) size) d)"
  by (induction d) (auto split: if_splits)

lemma zip_size_less:
  "(x, y) \<in> set (zip xs ys) \<Longrightarrow> size x < Suc (size_list size xs)"
proof -
  assume "(x, y) \<in> set (zip xs ys)"
  then have "x \<in> set xs" by (rule set_zip_leftD)
  then show ?thesis by (induction xs) auto
qed

text \<open>
  Python's \<^verbatim>\<open>==\<close> on these values: lists are compared element by element, dictionaries
  key by key whatever the order of the keys, values of different kinds are unequal.
  \<^verbatim>\<open>a != b\<close> is its negation.
\<close>

function py_eq :: "json \<Rightarrow> json \<Rightarrow> bool" where
  "py_eq JNull y = (y = JNull)"
| "py_eq (JBool b) y = (num_of y = Some (if b then 1 else 0))"
| "py_eq (JInt i) y = (num_of y = Some i)"
| "py_eq (JStr s) y = (y = JStr s)"
| "py_eq (JList xs) y =
     (case y of
        JList ys \<Rightarrow> length xs = length ys \<and> list_all (\<lambda>(a, b). py_eq a b) (zip xs ys)
      | _ \<Rightarrow> False)"
| "py_eq (JDict d) y =
     (case y of
        JDict e \<Rightarrow>
          list_all (\<lambda>k. map_of d k \<noteq> None) (map fst e) \<and>
          list_all (\<lambda>k. case map_of d k of
                          None \<Rightarrow> False
                        | Some v \<Rightarrow> (case map_of e k of None \<Rightarrow> False | Some w \<Rightarrow> py_eq v w))
                   (map fst d)
      | _ \<Rightarrow> False)"
  by pat_completeness auto
termination
  apply (relation "measure (\<lambda>(x, y). size x)")
    apply simp
   apply (auto dest: zip_size_less map_of_size_less)
  done

text \<open>Truth value of a parameter in \<^verbatim>\<open>x and ...\<close> and \<^verbatim>\<open>x or default\<close>.\<close>

fun truthy :: "json \<Rightarrow> bool" where
  "truthy JNull = False"
| "truthy (JBool b) = b"
| "truthy (JInt i) = (i \<noteq> 0)"
| "truthy (JStr s) = (s \<noteq> [])"
| "truthy (JList xs) = (xs \<noteq> [])"
| "truthy (JDict d) = (d \<noteq> [])"

definition py_or :: "json \<Rightarrow> json \<Rightarrow> json" where
  "py_or x dflt = (if truthy x then x else dflt)"

text \<open>\<^verbatim>\<open>x[k]\<close> with a string key: a dictionary without the key raises KeyError, any other
  value raises TypeError.\<close>

fun getitem :: "json \<Rightarrow> string \<Rightarrow> error + json" where
  "getitem (JDict d) k = (case map_of d k of None \<Rightarrow> Inl (KeyError k) | Some v \<Rightarrow> Inr v)"
| "getitem _ k = Inl TypeError"

text \<open>\<^verbatim>\<open>d[k] = v\<close> on a dictionary: the value of an existing key is replaced in place,
  a new key is added.\<close>

fun setitem :: "(string \<times> json) list \<Rightarrow> string \<Rightarrow> json \<Rightarrow> (string \<times> json) list" where
  "setitem [] k v = [(k, v)]"
| "setitem ((k', v') # d) k v = (if k' = k then (k, v) # d else (k', v') # setitem d k v)"

section \<open>The pool module: the recursive diff\<close>

text \<open>
  \<^verbatim>\<open>StingrayPool._pool_changes(new_pool, current_pool, parent='')\<close>. The loop runs over
  \<^verbatim>\<open>new_pool.keys()\<close> and reads \<^verbatim>\<open>new_pool[k]\<close>; \<^verbatim>\<open>current_pool.get\<close> raises
  AttributeError when \<^verbatim>\<open>current_pool\<close> is not a dictionary. A change entry is the
  dictionary \<^verbatim>\<open>{path: {'before': ..., 'after': ...}}\<close>. The recursive call passes the
  key \<^verbatim>\<open>k\<close> as the new parent.
\<close>

definition change_entry :: "string \<Rightarrow> json \<Rightarrow> json \<Rightarrow> json" where
  "change_entry path old new =
     JDict [(path, JDict [(''before'', old), (''after'', new)])]"

definition field_path :: "string \<Rightarrow> string \<Rightarrow> string" where
  "field_path parent k = (if parent = [] then k else parent @ ''.'' @ k)"

function pool_changes_keys ::
  "string list \<Rightarrow> (string \<times> json) list \<Rightarrow> json \<Rightarrow> string \<Rightarrow> error + json list" where
  "pool_changes_keys [] new_pool current_pool parent = Inr []"
| "pool_changes_keys (k # ks) new_pool current_pool parent =
     (case current_pool of
        JDict cur \<Rightarrow>
          (case map_of cur k of
             None \<Rightarrow> pool_changes_keys ks new_pool current_pool parent
           | Some cv \<Rightarrow>
               if cv = JNull then pool_changes_keys ks new_pool current_pool parent
               else
                 (case map_of new_pool k of
                    None \<Rightarrow> Inl (KeyError k)
                  | Some v \<Rightarrow>
                      (case v of
                         JDict sub \<Rightarrow>
                           (case pool_changes_keys (map fst sub) sub cv k of
                              Inl e \<Rightarrow> Inl e
                            | Inr cs \<Rightarrow>
                                (case pool_changes_keys ks new_pool current_pool parent of
                                   Inl e \<Rightarrow> Inl e
                                 | Inr cs' \<Rightarrow> Inr (cs @ cs')))
                       | _ \<Rightarrow>
                           (case pool_changes_keys ks new_pool current_pool parent of
                              Inl e \<Rightarrow> Inl e
                            | Inr cs' \<Rightarrow>
                                Inr ((if py_eq v cv then []
                                      else [change_entry (field_path parent k) cv v]) @ cs')))))
      | _ \<Rightarrow> Inl AttributeError)"
  by pat_completeness auto
termination
  apply (relation "measures [\<lambda>(ks, new_pool, cur, parent). size_list (size_prod (\<lambda>_. 0) size) new_pool,
                             \<lambda>(ks, new_pool, cur, parent). length ks]")
       apply simp
      apply simp
     apply simp
    apply (auto dest: map_of_size_less)
  done

definition pool_changes :: "(string \<times> json) list \<Rightarrow> json \<Rightarrow> string \<Rightarrow> error + json list" where
  "pool_changes new_pool current_pool parent =
     pool_changes_keys (map fst new_pool) new_pool current_pool parent"

text \<open>
  The shape precondition on a pair of trees, applied at every level: where the desired
  value of a key is a dictionary and the current value is present and not null, the
  current value is a dictionary too.
\<close>

function shape_ok :: "(string \<times> json) list \<Rightarrow> (string \<times> json) list \<Rightarrow> bool" where
  "shape_ok new_pool cur =
     list_all (\<lambda>k. case map_of new_pool k of
                     Some (JDict sub) \<Rightarrow>
                       (case map_of cur k of
                          None \<Rightarrow> True
                        | Some cv \<Rightarrow>
                            cv = JNull \<or> (case cv of JDict c \<Rightarrow> shape_ok sub c | _ \<Rightarrow> False))
                   | _ \<Rightarrow> True)
              (map fst new_pool)"
  by pat_completeness auto
termination
  apply (relation "measure (\<lambda>(new_pool, cur). size_list (size_prod (\<lambda>_. 0) size) new_pool)")
   apply simp
  apply (auto dest: map_of_size_less)
  done

declare shape_ok.simps [simp del]

section \<open>Transport, results and the state of an invocation\<close>

text \<open>
  The HTTP session is a function from the request to what \<^verbatim>\<open>requests\<close> does with it:
  a response with its \<^verbatim>\<open>status_code\<close> and \<^verbatim>\<open>text\<close>, or an exception. A write sends
  the value given to \<^verbatim>\<open>json.dumps\<close>. \<^verbatim>\<open>json.loads\<close> is a parameter \<open>loads\<close> of the
  operations that decode a body: \<open>None\<close> where it raises ValueError. Authentication and
  the timeout do not influence the control flow and are left out.
\<close>

datatype request = Get string | Put string json | Delete string

datatype reply = Response int string | Raises error

text \<open>
  \<^verbatim>\<open>fail_json(msg=m)\<close> ends the invocation with the message \<open>Msg m\<close>;
  \<^verbatim>\<open>fail_json(msg=str(e))\<close> with \<open>StrOf e\<close>, the text of the exception \<open>e\<close>. Inside a
  method, \<open>Raised e\<close> is an exception that leaves the method; \<^verbatim>\<open>main\<close> catches it and
  fails with \<open>StrOf e\<close>. An exception in the constructor is outside the \<^verbatim>\<open>try\<close> of
  \<^verbatim>\<open>main\<close> and ends the program with a traceback.
\<close>

datatype failmsg = Msg json | StrOf error

datatype abort = FailJson failmsg | Raised error

datatype outcome = ExitJson bool json json | Failure failmsg | Traceback error

record reconciler =
  url :: string
  pool :: string
  msg :: json
  changed :: bool
  pool_data :: json
  check_mode :: bool

record pool_obj = reconciler +
  properties :: "(string \<times> json) list"
  exists :: bool

record node_obj = reconciler +
  node :: string
  desired_weight :: json
  desired_priority :: json
  desired_lb_state :: json

definition url_of :: "string \<Rightarrow> string \<Rightarrow> string \<Rightarrow> string" where
  "url_of server port p =
     ''https://'' @ server @ '':'' @ port @ ''/api/tm/3.0/config/active/pools/'' @ p"

section \<open>The pool module\<close>

text \<open>\<^verbatim>\<open>StingrayPool.__init__\<close>: the top-level properties that are \<^verbatim>\<open>None\<close> are dropped,
  the pool is fetched, a 404 clears \<^verbatim>\<open>exists\<close>, and the body is decoded whatever the
  status.\<close>

definition pool_init ::
  "(string \<Rightarrow> json option) \<Rightarrow> (request \<Rightarrow> reply) \<Rightarrow> bool \<Rightarrow> string \<Rightarrow> string \<Rightarrow> string \<Rightarrow>
   (string \<times> json) list \<Rightarrow> outcome + pool_obj" where
  "pool_init loads send check server port p props =
     (let non_empty_props = filter (\<lambda>(k, v). v \<noteq> JNull) props;
          u = url_of server port p
      in case send (Get u) of
           Raises (ConnectionError e) \<Rightarrow>
             Inl (Failure (Msg (JStr (''Unable to connect to '' @ u @ '': '' @ e))))
         | Raises e \<Rightarrow> Inl (Traceback e)
         | Response status_code text \<Rightarrow>
             (case loads text of
                None \<Rightarrow> Inl (Failure (StrOf ValueError))
              | Some d \<Rightarrow>
                  Inr \<lparr>url = u, pool = p, msg = JStr [], changed = False, pool_data = d,
                       check_mode = check, properties = non_empty_props,
                       exists = (status_code \<noteq> 404)\<rparr>))"

text \<open>\<^verbatim>\<open>StingrayPool.set_absent\<close>. The second component of the result lists the writes
  that were sent.\<close>

definition pool_set_absent ::
  "(request \<Rightarrow> reply) \<Rightarrow> pool_obj \<Rightarrow> (abort + pool_obj) \<times> request list" where
  "pool_set_absent send self =
     (let changes = [(''pool'', JStr (pool self))] in
      if exists self then
        (let changes = setitem changes ''action'' (JStr ''destroy_pool'');
             self = self\<lparr>changed := True, msg := JDict changes\<rparr>
         in if check_mode self then (Inr self, [])
            else (case send (Delete (url self)) of
                    Raises e \<Rightarrow> (Inl (FailJson (StrOf e)), [Delete (url self)])
                  | Response status_code text \<Rightarrow>
                      if status_code \<noteq> 204
                      then (Inl (FailJson (Msg (JDict (setitem changes ''error'' (JStr text))))),
                            [Delete (url self)])
                      else (Inr self, [Delete (url self)])))
      else (Inr (self\<lparr>changed := False, msg := JDict changes\<rparr>), []))"

text \<open>\<^verbatim>\<open>StingrayPool.set_present\<close>.\<close>

definition pool_set_present ::
  "(string \<Rightarrow> json option) \<Rightarrow> (request \<Rightarrow> reply) \<Rightarrow> pool_obj \<Rightarrow>
   (abort + pool_obj) \<times> request list" where
  "pool_set_present loads send self =
     (let changes = [(''pool'', JStr (pool self))] in
      if \<not> exists self then
        (let changes = setitem changes ''action'' (JStr ''create_pool'');
             self = self\<lparr>changed := True, msg := JDict changes\<rparr>
         in if check_mode self then (Inr self, [])
            else
              (let new_pool =
                     (if properties self \<noteq> []
                      then JDict [(''properties'', JDict (properties self))]
                      else JDict [(''properties'', JDict [(''basic'', JDict [])])]);
                   req = Put (url self) new_pool
               in case send req of
                    Raises e \<Rightarrow> (Inl (FailJson (StrOf e)), [req])
                  | Response status_code text \<Rightarrow>
                      if status_code = 201
                      then (case loads text of
                              None \<Rightarrow> (Inl (Raised ValueError), [req])
                            | Some d \<Rightarrow> (Inr (self\<lparr>pool_data := d\<rparr>), [req]))
                      else (Inl (FailJson (Msg (JDict (setitem changes ''error'' (JStr text))))),
                            [req])))
      else
        (case getitem (pool_data self) ''properties'' of
           Inl e \<Rightarrow> (Inl (Raised e), [])
         | Inr current \<Rightarrow>
             (case pool_changes (properties self) current [] of
                Inl e \<Rightarrow> (Inl (Raised e), [])
              | Inr changes \<Rightarrow>
                  (let self = self\<lparr>changed := (changes \<noteq> []), msg := JList changes\<rparr>
                   in if check_mode self then (Inr self, [])
                      else if changed self then
                        (let req = Put (url self) (JDict [(''properties'', JDict (properties self))])
                         in case send req of
                              Raises e \<Rightarrow> (Inl (FailJson (StrOf e)), [req])
                            | Response status_code text \<Rightarrow>
                                if status_code = 200
                                then (case loads text of
                                        None \<Rightarrow> (Inl (Raised ValueError), [req])
                                      | Some d \<Rightarrow> (Inr (self\<lparr>pool_data := d\<rparr>), [req]))
                                else (Inl (FailJson (Msg (JList changes))), [req]))
                      else (Inr self, [])))))"

text \<open>How \<^verbatim>\<open>main\<close> ends once the method has returned or stopped.\<close>

definition finish :: "(abort + 'a reconciler_scheme) \<Rightarrow> outcome" where
  "finish r =
     (case r of
        Inl (FailJson m) \<Rightarrow> Failure m
      | Inl (Raised e) \<Rightarrow> Failure (StrOf e)
      | Inr self \<Rightarrow> ExitJson (changed self) (msg self) (pool_data self))"

text \<open>\<^verbatim>\<open>main\<close> of the pool module.\<close>

definition pool_main ::
  "(string \<Rightarrow> json option) \<Rightarrow> (request \<Rightarrow> reply) \<Rightarrow> bool \<Rightarrow> string \<Rightarrow> string \<Rightarrow> string \<Rightarrow>
   string \<Rightarrow> (string \<times> json) list \<Rightarrow> outcome \<times> request list" where
  "pool_main loads send check state server port name props =
     (case pool_init loads send check server port name props of
        Inl out \<Rightarrow> (out, [])
      | Inr stingray_pool \<Rightarrow>
          (let (r, writes) =
                 (if state = ''present'' then pool_set_present loads send stingray_pool
                  else if state = ''absent'' then pool_set_absent send stingray_pool
                  else (Inl (FailJson (Msg (JStr (''Unsupported state: '' @ state)))), []))
           in (finish r, writes)))"

section \<open>The node module\<close>

text \<open>\<^verbatim>\<open>StingrayNode.__init__\<close>: a missing pool is fatal here.\<close>

definition node_init ::
  "(string \<Rightarrow> json option) \<Rightarrow> (request \<Rightarrow> reply) \<Rightarrow> bool \<Rightarrow> string \<Rightarrow> string \<Rightarrow> string \<Rightarrow>
   string \<Rightarrow> json \<Rightarrow> json \<Rightarrow> json \<Rightarrow> outcome + node_obj" where
  "node_init loads send check server port p nd weight priority lb_state =
     (let u = url_of server port p
      in case send (Get u) of
           Raises (ConnectionError e) \<Rightarrow>
             Inl (Failure (Msg (JStr (''Unable to connect to '' @ u @ '': '' @ e))))
         | Raises e \<Rightarrow> Inl (Traceback e)
         | Response status_code text \<Rightarrow>
             if status_code = 404
             then Inl (Failure (Msg (JStr (''Pool '' @ p @ '' not found''))))
             else (case loads text of
                     None \<Rightarrow> Inl (Failure (StrOf ValueError))
                   | Some d \<Rightarrow>
                       Inr \<lparr>url = u, pool = p, msg = JStr [], changed = False, pool_data = d,
                            check_mode = check, node = nd, desired_weight = weight,
                            desired_priority = priority, desired_lb_state = lb_state\<rparr>))"

text \<open>\<^verbatim>\<open>_nodes\<close>: \<^verbatim>\<open>self.pool_data['properties']['basic']['nodes_table']\<close>.\<close>

definition nodes :: "node_obj \<Rightarrow> error + json" where
  "nodes self =
     (case getitem (pool_data self) ''properties'' of
        Inl e \<Rightarrow> Inl e
      | Inr props \<Rightarrow>
          (case getitem props ''basic'' of
             Inl e \<Rightarrow> Inl e
           | Inr basic \<Rightarrow> getitem basic ''nodes_table''))"

text \<open>What a \<^verbatim>\<open>for n in x\<close> runs over: the elements of a list, the keys of a dictionary,
  the characters of a string; anything else is not iterable.\<close>

fun py_iter :: "json \<Rightarrow> error + json list" where
  "py_iter (JList xs) = Inr xs"
| "py_iter (JDict d) = Inr (map (\<lambda>kv. JStr (fst kv)) d)"
| "py_iter (JStr s) = Inr (map (\<lambda>c. JStr [c]) s)"
| "py_iter _ = Inl TypeError"

text \<open>The comprehensions \<^verbatim>\<open>[n for n in ... if n['node'] == self.node]\<close> (\<open>keep\<close> true) and
  \<^verbatim>\<open>[n for n in ... if n['node'] != self.node]\<close> (\<open>keep\<close> false); the first entry
  without a \<^verbatim>\<open>'node'\<close> raises.\<close>

fun select_nodes :: "bool \<Rightarrow> string \<Rightarrow> json list \<Rightarrow> error + json list" where
  "select_nodes keep nd [] = Inr []"
| "select_nodes keep nd (n # ns) =
     (case getitem n ''node'' of
        Inl e \<Rightarrow> Inl e
      | Inr v \<Rightarrow>
          (case select_nodes keep nd ns of
             Inl e \<Rightarrow> Inl e
           | Inr r \<Rightarrow> Inr (if py_eq v (JStr nd) = keep then n # r else r)))"

definition nodes_where :: "bool \<Rightarrow> node_obj \<Rightarrow> error + json list" where
  "nodes_where keep self =
     (case nodes self of
        Inl e \<Rightarrow> Inl e
      | Inr tbl \<Rightarrow>
          (case py_iter tbl of
             Inl e \<Rightarrow> Inl e
           | Inr ns \<Rightarrow> select_nodes keep (node self) ns))"

definition get_current_node :: "node_obj \<Rightarrow> error + json list" where
  "get_current_node self = nodes_where True self"

definition node_exists :: "node_obj \<Rightarrow> error + bool" where
  "node_exists self =
     (case get_current_node self of Inl e \<Rightarrow> Inl e | Inr ns \<Rightarrow> Inr (ns \<noteq> []))"

text \<open>
  \<^verbatim>\<open>set_nodes\<close> builds the document around the table, sends it with PUT to the URL of
  the pool and returns the response. The result is the reply together with the request
  that was sent: the list of writes of an invocation is made of what \<^verbatim>\<open>set_nodes\<close>
  sent, nothing else.
\<close>

definition set_nodes :: "(request \<Rightarrow> reply) \<Rightarrow> node_obj \<Rightarrow> json \<Rightarrow> reply \<times> request list" where
  "set_nodes send self tbl =
     (let data = JDict [(''properties'', JDict [(''basic'', JDict [(''nodes_table'', tbl)])])];
          req = Put (url self) data
      in (send req, [req]))"

text \<open>
  After a write of the node table: status 200 stores the decoded body; any other status
  evaluates \<^verbatim>\<open>"HTTP {2}".format(response.status_code)\<close>, which has one argument and
  raises IndexError before \<^verbatim>\<open>fail_json\<close> is reached.
\<close>

definition after_set_nodes ::
  "(string \<Rightarrow> json option) \<Rightarrow> node_obj \<Rightarrow> reply \<times> request list \<Rightarrow>
   (abort + node_obj) \<times> request list" where
  "after_set_nodes loads self sent =
     (case sent of (response, writes) \<Rightarrow>
        (case response of
           Raises e \<Rightarrow> (Inl (Raised e), writes)
         | Response status_code text \<Rightarrow>
             if status_code = 200
             then (case loads text of
                     None \<Rightarrow> (Inl (Raised ValueError), writes)
                   | Some d \<Rightarrow> (Inr (self\<lparr>pool_data := d\<rparr>), writes))
             else (Inl (Raised IndexError), writes)))"

text \<open>\<^verbatim>\<open>StingrayNode.set_absent\<close>.\<close>

definition node_set_absent ::
  "(string \<Rightarrow> json option) \<Rightarrow> (request \<Rightarrow> reply) \<Rightarrow> node_obj \<Rightarrow>
   (abort + node_obj) \<times> request list" where
  "node_set_absent loads send self =
     (let changes = [(''node'', JStr (node self)), (''pool'', JStr (pool self))] in
      case node_exists self of
        Inl e \<Rightarrow> (Inl (Raised e), [])
      | Inr True \<Rightarrow>
          (let changes = setitem changes ''action'' (JStr ''remove_node'');
               self = self\<lparr>changed := True, msg := JDict changes\<rparr>
           in if check_mode self then (Inr self, [])
              else (case nodes_where False self of
                      Inl e \<Rightarrow> (Inl (Raised e), [])
                    | Inr new_nodes \<Rightarrow>
                        after_set_nodes loads self (set_nodes send self (JList new_nodes))))
      | Inr False \<Rightarrow> (Inr (self\<lparr>changed := False, msg := JDict changes\<rparr>), []))"

text \<open>
  One of the three comparisons of \<^verbatim>\<open>set_present\<close>: a desired value that is set and
  differs from the node's is recorded in \<^verbatim>\<open>changes\<close> and assigned to the node.
\<close>

fun assign :: "json \<Rightarrow> string \<Rightarrow> json \<Rightarrow> json" where
  "assign (JDict d) k v = JDict (setitem d k v)"
| "assign j k v = j"

definition compare_field ::
  "string \<Rightarrow> json \<Rightarrow> (string \<times> json) list \<times> json \<times> bool \<Rightarrow>
   error + (string \<times> json) list \<times> json \<times> bool" where
  "compare_field f desired acc =
     (case acc of (changes, current_node, chg) \<Rightarrow>
        if truthy desired then
          (case getitem current_node f of
             Inl e \<Rightarrow> Inl e
           | Inr cv \<Rightarrow>
               if \<not> py_eq desired cv
               then Inr (setitem changes f (JDict [(''before'', cv), (''after'', desired)]),
                         assign current_node f desired, True)
               else Inr acc)
        else Inr acc)"

text \<open>
  \<^verbatim>\<open>current_node\<close> is the first matching entry of the table inside \<^verbatim>\<open>pool_data\<close>, not a
  copy: an assignment to it is an assignment inside \<^verbatim>\<open>pool_data\<close>. \<open>store_node\<close> puts
  the assigned entry at the place of the first match.
\<close>

fun replace_first :: "string \<Rightarrow> json \<Rightarrow> json list \<Rightarrow> json list" where
  "replace_first nd new [] = []"
| "replace_first nd new (n # ns) =
     (case getitem n ''node'' of
        Inr v \<Rightarrow> if py_eq v (JStr nd) then new # ns else n # replace_first nd new ns
      | Inl e \<Rightarrow> n # replace_first nd new ns)"

fun update_in :: "json \<Rightarrow> string \<Rightarrow> (json \<Rightarrow> json) \<Rightarrow> json" where
  "update_in (JDict d) k f = JDict (map (\<lambda>kv. if fst kv = k then (k, f (snd kv)) else kv) d)"
| "update_in j k f = j"

definition store_node :: "json \<Rightarrow> string \<Rightarrow> json \<Rightarrow> json" where
  "store_node data nd new =
     update_in data ''properties'' (\<lambda>props.
       update_in props ''basic'' (\<lambda>basic.
         update_in basic ''nodes_table'' (\<lambda>tbl.
           case tbl of JList ns \<Rightarrow> JList (replace_first nd new ns) | _ \<Rightarrow> tbl)))"

text \<open>\<^verbatim>\<open>x + [n]\<close>: defined for a list \<^verbatim>\<open>x\<close> only.\<close>

fun py_append :: "json \<Rightarrow> json \<Rightarrow> error + json" where
  "py_append (JList xs) n = Inr (JList (xs @ [n]))"
| "py_append j n = Inl TypeError"

text \<open>The three comparisons of \<^verbatim>\<open>set_present\<close> in their order: state, weight, priority.\<close>

definition compare_fields ::
  "node_obj \<Rightarrow> (string \<times> json) list \<Rightarrow> json \<Rightarrow> error + (string \<times> json) list \<times> json \<times> bool" where
  "compare_fields self changes current_node =
     (case compare_field ''state'' (desired_lb_state self) (changes, current_node, False) of
        Inl e \<Rightarrow> Inl e
      | Inr acc1 \<Rightarrow>
          (case compare_field ''weight'' (desired_weight self) acc1 of
             Inl e \<Rightarrow> Inl e
           | Inr acc2 \<Rightarrow> compare_field ''priority'' (desired_priority self) acc2))"

text \<open>\<^verbatim>\<open>StingrayNode.set_present\<close>.\<close>

definition node_set_present ::
  "(string \<Rightarrow> json option) \<Rightarrow> (request \<Rightarrow> reply) \<Rightarrow> node_obj \<Rightarrow>
   (abort + node_obj) \<times> request list" where
  "node_set_present loads send self =
     (let changes = [(''node'', JStr (node self)), (''pool'', JStr (pool self))] in
      case get_current_node self of
        Inl e \<Rightarrow> (Inl (Raised e), [])
      | Inr [] \<Rightarrow>
          (let changes = setitem changes ''action'' (JStr ''add_node'');
               self = self\<lparr>msg := JDict changes, changed := True\<rparr>
           in if check_mode self then (Inr self, [])
              else (case nodes self of
                      Inl e \<Rightarrow> (Inl (Raised e), [])
                    | Inr tbl \<Rightarrow>
                        (case py_append tbl
                                (JDict [(''node'', JStr (node self)),
                                        (''state'', py_or (desired_lb_state self) (JStr ''active'')),
                                        (''weight'', py_or (desired_weight self) (JInt 1)),
                                        (''priority'', py_or (desired_priority self) (JInt 1))]) of
                           Inl e \<Rightarrow> (Inl (Raised e), [])
                         | Inr new_nodes \<Rightarrow>
                             after_set_nodes loads self (set_nodes send self new_nodes))))
      | Inr (current_node # others) \<Rightarrow>
          (case compare_fields self changes current_node of
             Inl e \<Rightarrow> (Inl (Raised e), [])
           | Inr (changes, current_node, chg) \<Rightarrow>
               if chg then
                 (let self = self\<lparr>changed := True, msg := JDict changes,
                                  pool_data := store_node (pool_data self) (node self) current_node\<rparr>
                  in if check_mode self then (Inr self, [])
                     else (case nodes_where False self of
                             Inl e \<Rightarrow> (Inl (Raised e), [])
                           | Inr new_nodes \<Rightarrow>
                               after_set_nodes loads self
                                 (set_nodes send self (JList (new_nodes @ [current_node])))))
               else (Inr (self\<lparr>changed := False, msg := JDict changes\<rparr>), [])))"

text \<open>\<^verbatim>\<open>main\<close> of the node module.\<close>

definition node_main ::
  "(string \<Rightarrow> json option) \<Rightarrow> (request \<Rightarrow> reply) \<Rightarrow> bool \<Rightarrow> string \<Rightarrow> string \<Rightarrow> string \<Rightarrow>
   string \<Rightarrow> string \<Rightarrow> json \<Rightarrow> json \<Rightarrow> json \<Rightarrow> outcome \<times> request list" where
  "node_main loads send check state server port p nd weight priority lb_state =
     (case node_init loads send check server port p nd weight priority lb_state of
        Inl out \<Rightarrow> (out, [])
      | Inr stingray_node \<Rightarrow>
          (let (r, writes) =
                 (if state = ''present'' then node_set_present loads send stingray_node
                  else if state = ''absent'' then node_set_absent loads send stingray_node
                  else (Inl (FailJson (Msg (JStr (''Unsupported state: '' @ state)))), []))
           in (finish r, writes)))"

text \<open>An entry of the node table that is the node \<open>nd\<close>, and the desired value of each
  of the three fields of a node.\<close>

definition is_node :: "string \<Rightarrow> json \<Rightarrow> bool" where
  "is_node nd n = (case getitem n ''node'' of Inr v \<Rightarrow> py_eq v (JStr nd) | Inl e \<Rightarrow> False)"

definition desired_of :: "node_obj \<Rightarrow> string \<Rightarrow> json" where
  "desired_of self f =
     (if f = ''state'' then desired_lb_state self
      else if f = ''weight'' then desired_weight self
      else if f = ''priority'' then desired_priority self
      else JNull)"

section \<open>What the specification expects\<close>

text \<open>
  The definitions of this section are not taken from the source. They say, in the words
  of the specification, what is expected of a run, and the theorems compare the source
  with them.

  \<open>nodes_request self tbl\<close> is the write the specification expects for a table \<open>tbl\<close>:
  a PUT to the URL of the pool of the document
  \<open>{properties: {basic: {nodes_table: tbl}}}\<close>.
\<close>

definition nodes_request :: "node_obj \<Rightarrow> json \<Rightarrow> request" where
  "nodes_request self tbl =
     Put (url self)
       (JDict [(''properties'', JDict [(''basic'', JDict [(''nodes_table'', tbl)])])])"

text \<open>
  A node needs an update when one of its three fields has a desired value that is set
  and differs from the value the fetched entry has. \<open>node_readable\<close>: the fetched entry
  has every field for which a desired value is set.
\<close>

definition node_fields :: "string list" where
  "node_fields = [''state'', ''weight'', ''priority'']"

definition differs_at :: "node_obj \<Rightarrow> json \<Rightarrow> string \<Rightarrow> bool" where
  "differs_at self x f =
     (truthy (desired_of self f) \<and>
      (case getitem x f of Inr v \<Rightarrow> \<not> py_eq (desired_of self f) v | Inl e \<Rightarrow> False))"

definition node_differs :: "node_obj \<Rightarrow> json \<Rightarrow> bool" where
  "node_differs self x = list_ex (differs_at self x) node_fields"

definition node_readable :: "node_obj \<Rightarrow> json \<Rightarrow> bool" where
  "node_readable self x =
     list_all (\<lambda>f. truthy (desired_of self f) \<longrightarrow>
                    (case getitem x f of Inr v \<Rightarrow> True | Inl e \<Rightarrow> False)) node_fields"






section \<open>A remote that keeps what was written\<close>




section \<open>Example data\<close>

text \<open>A pool document with two nodes, the document without the first node, and a decoder that
  knows them under the bodies \<open>doc\<close> and \<open>doc2\<close>.\<close>

definition lb_doc :: json where
  "lb_doc = JDict [(''properties'', JDict [(''basic'', JDict [(''nodes_table'',
      JList [JDict [(''node'', JStr ''10.0.0.1:80''), (''state'', JStr ''active''),
                    (''weight'', JInt 1), (''priority'', JInt 1)],
             JDict [(''node'', JStr ''10.0.0.2:80''), (''state'', JStr ''active''),
                    (''weight'', JInt 1), (''priority'', JInt 1)]])])])]"

definition lb_doc2 :: json where
  "lb_doc2 = JDict [(''properties'', JDict [(''basic'', JDict [(''nodes_table'',
      JList [JDict [(''node'', JStr ''10.0.0.2:80''), (''state'', JStr ''active''),
                    (''weight'', JInt 1), (''priority'', JInt 1)]])])])]"

definition lb_loads :: "string \<Rightarrow> json option" where
  "lb_loads t =
     (if t = ''doc'' then Some lb_doc
      else if t = ''doc2'' then Some lb_doc2
      else if t = ''{}'' then Some (JDict [])
      else None)"

text \<open>A pool document with one property, under the body \<open>note\<close>, and the document after
  the property was set to \<open>y\<close>, under the body \<open>noted\<close>.\<close>

definition note_doc :: json where
  "note_doc = JDict [(''properties'', JDict [(''basic'', JDict [(''note'', JStr ''x'')])])]"

definition noted_doc :: json where
  "noted_doc = JDict [(''properties'', JDict [(''basic'', JDict [(''note'', JStr ''y'')])])]"

definition note_loads :: "string \<Rightarrow> json option" where
  "note_loads t =
     (if t = ''note'' then Some note_doc
      else if t = ''noted'' then Some noted_doc
      else None)"

text \<open>An existing pool with one desired property, and a node request for a weight of 5.\<close>

definition web_pool :: pool_obj where
  "web_pool = \<lparr>url = url_of ''lb'' ''9070'' ''web'', pool = ''web'', msg = JStr [],
       changed = False, pool_data = note_doc, check_mode = False,
       properties = [(''basic'', JDict [(''note'', JStr ''y'')])], exists = True\<rparr>"

definition lb_node :: node_obj where
  "lb_node = \<lparr>url = url_of ''lb'' ''9070'' ''web'', pool = ''web'', msg = JStr [],
       changed = False, pool_data = lb_doc, check_mode = False, node = ''10.0.0.1:80'',
       desired_weight = JInt 5, desired_priority = JNull, desired_lb_state = JNull\<rparr>"

text \<open>A node request that drains the first node and gives it priority 2; the document
  after the first node got the weight 5, and a decoder that knows it under \<open>doc3\<close>.\<close>

definition lb_node_drain :: node_obj where
  "lb_node_drain = \<lparr>url = url_of ''lb'' ''9070'' ''web'', pool = ''web'', msg = JStr [],
       changed = False, pool_data = lb_doc, check_mode = False, node = ''10.0.0.1:80'',
       desired_weight = JNull, desired_priority = JInt 2,
       desired_lb_state = JStr ''draining''\<rparr>"



section \<open>Properties of the comparison and of the diff\<close>

lemma py_eq_refl: "py_eq x x"
proof (induction x)
  case (JList xs)
  have "list_all (\<lambda>(a, b). py_eq a b) (zip xs xs)"
    using JList by (induction xs) auto
  then show ?case by simp
next
  case (JDict d)
  have key: "case map_of d k of None \<Rightarrow> False
             | Some v \<Rightarrow> (case map_of d k of None \<Rightarrow> False | Some w \<Rightarrow> py_eq v w)"
    if "k \<in> fst ` set d" for k
  proof -
    from that obtain v where v: "map_of d k = Some v"
      by (metis domD dom_map_of_conv_image_fst)
    then have "(k, v) \<in> set d" by (rule map_of_SomeD)
    then have "v \<in> Basic_BNFs.snds (k, v)" "(k, v) \<in> set d" by (auto simp: snds.simps)
    then have "py_eq v v" using JDict by blast
    with v show ?thesis by simp
  qed
  have dom: "map_of d k \<noteq> None" if "k \<in> fst ` set d" for k
    using that by (metis domIff dom_map_of_conv_image_fst)
  have "list_all (\<lambda>k. map_of d k \<noteq> None) (map fst d)"
    unfolding list_all_iff using dom by simp
  moreover have "list_all (\<lambda>k. case map_of d k of None \<Rightarrow> False
             | Some v \<Rightarrow> (case map_of d k of None \<Rightarrow> False | Some w \<Rightarrow> py_eq v w)) (map fst d)"
    unfolding list_all_iff using key by simp
  ultimately show ?case by simp
qed simp_all

lemma pool_changes_keys_cong:
  "(\<And>k. k \<in> set ks \<Longrightarrow> map_of new k = map_of new' k) \<Longrightarrow>
   pool_changes_keys ks new cur parent = pool_changes_keys ks new' cur parent"
proof (induction ks)
  case Nil
  show ?case by simp
next
  case (Cons k ks)
  have tl: "pool_changes_keys ks new cur parent = pool_changes_keys ks new' cur parent"
    by (rule Cons.IH) (simp add: Cons.prems)
  have hd: "map_of new k = map_of new' k"
    by (simp add: Cons.prems)
  show ?case by (simp only: pool_changes_keys.simps tl hd)
qed

lemma pool_changes_keys_unset:
  "map_of cur k = None \<or> map_of cur k = Some JNull \<Longrightarrow>
   pool_changes_keys (k # ks) new (JDict cur) parent = pool_changes_keys ks new (JDict cur) parent"
  by auto

lemma pool_changes_keys_skip:
  assumes "map_of cur k = None \<or> map_of cur k = Some JNull"
  shows "pool_changes_keys (filter (\<lambda>k'. k' \<noteq> k) ks) new (JDict cur) parent =
         pool_changes_keys ks new (JDict cur) parent"
proof (induction ks)
  case Nil
  show ?case by simp
next
  case (Cons a ks)
  show ?case
  proof (cases "a = k")
    case True
    then show ?thesis
      using Cons.IH pool_changes_keys_unset [OF assms] by simp
  next
    case False
    then have "filter (\<lambda>k'. k' \<noteq> k) (a # ks) = a # filter (\<lambda>k'. k' \<noteq> k) ks" by simp
    then show ?thesis by (simp only: pool_changes_keys.simps Cons.IH)
  qed
qed

lemma map_of_filter_key:
  "k' \<noteq> k \<Longrightarrow> map_of (filter (\<lambda>(a, _). a \<noteq> k) d) k' = map_of d k'"
  by (induction d) auto

lemma pool_changes_keys_dict:
  "map_of cur k = Some cv \<Longrightarrow> cv \<noteq> JNull \<Longrightarrow> map_of new k = Some (JDict sub) \<Longrightarrow>
   pool_changes_keys (map fst sub) sub cv k = Inr cs \<Longrightarrow>
   pool_changes_keys ks new (JDict cur) parent = Inr cs' \<Longrightarrow>
   pool_changes_keys (k # ks) new (JDict cur) parent = Inr (cs @ cs')"
  by simp

lemma pool_changes_keys_leaf:
  "map_of cur k = Some cv \<Longrightarrow> cv \<noteq> JNull \<Longrightarrow> map_of new k = Some v \<Longrightarrow>
   \<forall>sub. v \<noteq> JDict sub \<Longrightarrow>
   pool_changes_keys ks new (JDict cur) parent = Inr cs' \<Longrightarrow>
   pool_changes_keys (k # ks) new (JDict cur) parent =
     Inr ((if py_eq v cv then [] else [change_entry (field_path parent k) cv v]) @ cs')"
  by (cases v) simp_all

lemma shape_ok_key:
  assumes "shape_ok new cur" "map_of new k = Some (JDict sub)" "map_of cur k = Some cv"
    "cv \<noteq> JNull"
  shows "\<exists>c. cv = JDict c \<and> shape_ok sub c"
proof -
  from assms(2) have "k \<in> set (map fst new)"
    by (metis map_of_SomeD image_eqI fst_conv set_map)
  with assms(1) have "case map_of new k of
                     Some (JDict sub) \<Rightarrow>
                       (case map_of cur k of
                          None \<Rightarrow> True
                        | Some cv \<Rightarrow>
                            cv = JNull \<or> (case cv of JDict c \<Rightarrow> shape_ok sub c | _ \<Rightarrow> False))
                   | _ \<Rightarrow> True"
    unfolding shape_ok.simps [of new cur] list_all_iff by blast
  with assms(2-4) show ?thesis by (cases cv) simp_all
qed

lemma pool_changes_keys_total:
  "set ks \<subseteq> fst ` set new \<Longrightarrow> shape_ok new cur \<Longrightarrow>
   \<exists>cs. pool_changes_keys ks new (JDict cur) parent = Inr cs"
proof (induction new arbitrary: ks cur parent
       rule: measure_induct_rule [where f = "size_list (size_prod (\<lambda>_. 0) size)"])
  case (less new)
  from less.prems show ?case
  proof (induction ks)
    case Nil
    show ?case by simp
  next
    case (Cons k ks)
    then obtain cs' where rest: "pool_changes_keys ks new (JDict cur) parent = Inr cs'"
      by auto
    from Cons.prems obtain v where v: "map_of new k = Some v"
      by (metis domD dom_map_of_conv_image_fst list.set_intros(1) subsetD)
    show ?case
    proof (cases "map_of cur k = None \<or> map_of cur k = Some JNull")
      case True
      then show ?thesis using rest by (simp only: pool_changes_keys_unset) simp
    next
      case False
      then obtain cv where cv: "map_of cur k = Some cv" "cv \<noteq> JNull" by auto
      show ?thesis
      proof (cases "\<exists>sub. v = JDict sub")
        case True
        then obtain sub where sub: "v = JDict sub" by auto
        from shape_ok_key [OF Cons.prems(2) v [unfolded sub] cv]
        obtain c where c: "cv = JDict c" "shape_ok sub c" by auto
        have "size_list (size_prod (\<lambda>_. 0) size) sub < size_list (size_prod (\<lambda>_. 0) size) new"
          using map_of_size_less [OF v] sub by simp
        from less.IH [OF this _ c(2), of "map fst sub" k]
        obtain cs where "pool_changes_keys (map fst sub) sub cv k = Inr cs"
          using c(1) by auto
        from pool_changes_keys_dict [OF cv v [unfolded sub] this rest]
        show ?thesis by blast
      next
        case False
        then have "\<forall>sub. v \<noteq> JDict sub" by simp
        from pool_changes_keys_leaf [OF cv v this rest]
        show ?thesis by blast
      qed
    qed
  qed
qed

lemma pool_changes_keys_same:
  "pool_changes_keys ks new (JDict new) parent = Inr []"
proof (induction new arbitrary: ks parent
       rule: measure_induct_rule [where f = "size_list (size_prod (\<lambda>_. 0) size)"])
  case (less new)
  show ?case
  proof (induction ks)
    case Nil
    show ?case by simp
  next
    case (Cons k ks)
    show ?case
    proof (cases "map_of new k = None \<or> map_of new k = Some JNull")
      case True
      then show ?thesis using Cons.IH by (simp only: pool_changes_keys_unset)
    next
      case False
      then obtain v where v: "map_of new k = Some v" "v \<noteq> JNull" by auto
      show ?thesis
      proof (cases "\<exists>sub. v = JDict sub")
        case True
        then obtain sub where sub: "v = JDict sub" by auto
        have "size_list (size_prod (\<lambda>_. 0) size) sub < size_list (size_prod (\<lambda>_. 0) size) new"
          using map_of_size_less [OF v(1)] sub by simp
        from less.IH [OF this, of "map fst sub" k]
        have "pool_changes_keys (map fst sub) sub (JDict sub) k = Inr []" .
        from pool_changes_keys_dict [OF v(1) [unfolded sub] _ v(1) [unfolded sub] this Cons.IH]
        show ?thesis by simp
      next
        case False
        then have "\<forall>sub. v \<noteq> JDict sub" by simp
        from pool_changes_keys_leaf [OF v v(1) this Cons.IH]
        show ?thesis by (simp add: py_eq_refl)
      qed
    qed
  qed
qed


section \<open>Properties of the two modules\<close>

lemma filter_null_without_key:
  assumes "distinct (map fst props)" "(k, JNull) \<in> set props"
  shows "filter (\<lambda>(k', v). v \<noteq> JNull) (filter (\<lambda>(k', v). k' \<noteq> k) props) =
         filter (\<lambda>(k', v). v \<noteq> JNull) props"
proof -
  have "v = JNull" if "(k, v) \<in> set props" for v
    using assms that by (meson eq_key_imp_eq_value)
  then have "\<forall>x\<in>set props. (case x of (k', v) \<Rightarrow> v \<noteq> JNull) \<longrightarrow> (case x of (k', v) \<Rightarrow> k' \<noteq> k)"
    by auto
  then show ?thesis
    by (simp add: filter_filter conj_commute cong: filter_cong) (metis (mono_tags, lifting) filter_cong)
qed


lemma pool_init_properties:
  "pool_init loads send check server port p props = Inr self \<Longrightarrow>
   properties self = filter (\<lambda>(k, v). v \<noteq> JNull) props"
  by (auto simp: pool_init_def Let_def split: reply.splits error.splits option.splits)

lemma pool_update_body:
  assumes "exists self" "Put u body \<in> set (snd (pool_set_present loads send self))"
  shows "body = JDict [(''properties'', JDict (properties self))]"
proof (cases "getitem (pool_data self) ''properties''")
  case (Inl e)
  with assms show ?thesis by (simp add: pool_set_present_def)
next
  case (Inr current)
  show ?thesis
  proof (cases "pool_changes (properties self) current []")
    case (Inl e)
    with assms Inr show ?thesis by (simp add: pool_set_present_def)
  next
    case Inr2: (Inr changes)
    with assms Inr show ?thesis
      by (simp add: pool_set_present_def Let_def
          split: if_splits reply.splits option.splits)
  qed
qed


lemma set_nodes_sent:
  "set_nodes send self tbl = (send (nodes_request self tbl), [nodes_request self tbl])"
  by (simp add: set_nodes_def nodes_request_def Let_def)

lemma after_set_nodes_rejected:
  "sc \<noteq> 200 \<Longrightarrow>
   after_set_nodes loads self (Response sc body, [req]) = (Inl (Raised IndexError), [req])"
  by (simp add: after_set_nodes_def)

lemma after_set_nodes_writes: "snd (after_set_nodes loads self (rep, ws)) = ws"
  by (simp add: after_set_nodes_def split: reply.splits option.splits)

lemma node_set_present_write:
  assumes "node_set_present loads send self = (r, ws)" "ws \<noteq> []"
  shows "\<exists>self' tbl. after_set_nodes loads self'
                       (send (nodes_request self tbl), [nodes_request self tbl]) = (r, ws)"
proof (cases "get_current_node self")
  case (Inl e)
  with assms show ?thesis by (simp add: node_set_present_def)
next
  case (Inr found)
  show ?thesis
  proof (cases found)
    case Nil
    with assms Inr show ?thesis
      by (fastforce simp: node_set_present_def Let_def set_nodes_def nodes_request_def
          split: if_splits sum.splits)
  next
    case (Cons c cs)
    show ?thesis
    proof (cases "compare_fields self [(''node'', JStr (node self)), (''pool'', JStr (pool self))] c")
      case (Inl e)
      with assms Inr Cons show ?thesis by (simp add: node_set_present_def)
    next
      case Inr2: (Inr acc)
      obtain changes c' chg where acc: "acc = (changes, c', chg)" by (cases acc) auto
      with assms Inr Cons Inr2 show ?thesis
        by (fastforce simp: node_set_present_def Let_def set_nodes_def nodes_request_def
            split: if_splits sum.splits)
    qed
  qed
qed

lemma node_set_absent_write:
  assumes "node_set_absent loads send self = (r, ws)" "ws \<noteq> []"
  shows "\<exists>self' tbl. after_set_nodes loads self'
                       (send (nodes_request self tbl), [nodes_request self tbl]) = (r, ws)"
proof (cases "node_exists self")
  case (Inl e)
  with assms show ?thesis by (simp add: node_set_absent_def)
next
  case (Inr ex)
  with assms show ?thesis
    by (cases ex) (fastforce simp: node_set_absent_def Let_def set_nodes_def nodes_request_def
          split: if_splits sum.splits)+
qed

lemma node_write_rejected:
  assumes "after_set_nodes loads self' (send req, [req]) = (r, ws)"
    "ws = [w]" "send w = Response sc body" "sc \<noteq> 200"
  shows "finish r = Failure (StrOf IndexError)"
proof -
  from assms(1) have "ws = [req]" by (metis after_set_nodes_writes snd_conv)
  with assms(2) have "w = req" by simp
  with assms show ?thesis by (auto simp: after_set_nodes_rejected finish_def)
qed


lemma pool_create_rejected:
  assumes "\<not> exists self" "pool_set_present loads send self = (r, ws)" "ws = [w]"
    "send w = Response sc body" "sc \<noteq> 201"
  shows "finish r = Failure (Msg (JDict [(''pool'', JStr (pool self)),
            (''action'', JStr ''create_pool''), (''error'', JStr body)]))"
  using assms
  by (auto simp: pool_set_present_def Let_def finish_def split: if_splits reply.splits option.splits)

lemma pool_delete_rejected:
  assumes "pool_set_absent send self = (r, ws)" "ws = [w]"
    "send w = Response sc body" "sc \<noteq> 204"
  shows "finish r = Failure (Msg (JDict [(''pool'', JStr (pool self)),
            (''action'', JStr ''destroy_pool''), (''error'', JStr body)]))"
  using assms
  by (auto simp: pool_set_absent_def Let_def finish_def split: if_splits reply.splits option.splits)

lemma pool_update_rejected:
  assumes "exists self" "pool_set_present loads send self = (r, ws)" "ws = [w]"
    "send w = Response sc body" "sc \<noteq> 200"
  shows "\<exists>current cs. getitem (pool_data self) ''properties'' = Inr current \<and>
           pool_changes (properties self) current [] = Inr cs \<and> cs \<noteq> [] \<and>
           finish r = Failure (Msg (JList cs))"
proof (cases "getitem (pool_data self) ''properties''")
  case (Inl e)
  with assms show ?thesis by (simp add: pool_set_present_def)
next
  case (Inr current)
  show ?thesis
  proof (cases "pool_changes (properties self) current []")
    case (Inl e)
    with assms Inr show ?thesis by (simp add: pool_set_present_def)
  next
    case Inr2: (Inr cs)
    with assms Inr show ?thesis
      by (auto simp: pool_set_present_def Let_def finish_def split: if_splits reply.splits option.splits)
  qed
qed


lemma pool_init_check:
  "pool_init loads send True server port p props =
     (case pool_init loads send False server port p props of
        Inl out \<Rightarrow> Inl out
      | Inr self \<Rightarrow> Inr (self\<lparr>check_mode := True\<rparr>))"
  by (simp add: pool_init_def Let_def split: reply.splits error.splits option.splits)

lemma pool_init_check_mode:
  "pool_init loads send check server port p props = Inr self \<Longrightarrow> check_mode self = check"
  by (auto simp: pool_init_def Let_def split: reply.splits error.splits option.splits)

lemma pool_set_present_check:
  "check_mode self \<Longrightarrow> snd (pool_set_present loads send self) = []"
  by (simp add: pool_set_present_def Let_def split: sum.splits)

lemma pool_set_absent_check:
  "check_mode self \<Longrightarrow> snd (pool_set_absent send self) = []"
  by (simp add: pool_set_absent_def Let_def)

lemma pool_set_present_dry:
  assumes "\<not> check_mode self" "pool_set_present loads send self = (r, ws)"
    "finish r = ExitJson c m d"
  shows "pool_set_present loads send (self\<lparr>check_mode := True\<rparr>) =
           (Inr (self\<lparr>check_mode := True, changed := c, msg := m\<rparr>), [])"
proof (cases "exists self")
  case False
  with assms show ?thesis
    by (auto simp: pool_set_present_def Let_def finish_def
        split: if_splits reply.splits option.splits)
next
  case True
  show ?thesis
  proof (cases "getitem (pool_data self) ''properties''")
    case (Inl e)
    with assms True show ?thesis by (auto simp: pool_set_present_def finish_def)
  next
    case (Inr current)
    show ?thesis
    proof (cases "pool_changes (properties self) current []")
      case (Inl e)
      with assms True Inr show ?thesis by (auto simp: pool_set_present_def finish_def)
    next
      case Inr2: (Inr cs)
      with assms True Inr show ?thesis
        by (auto simp: pool_set_present_def Let_def finish_def
            split: if_splits reply.splits option.splits)
    qed
  qed
qed

lemma pool_set_absent_dry:
  assumes "\<not> check_mode self" "pool_set_absent send self = (r, ws)"
    "finish r = ExitJson c m d"
  shows "pool_set_absent send (self\<lparr>check_mode := True\<rparr>) =
           (Inr (self\<lparr>check_mode := True, changed := c, msg := m\<rparr>), [])"
  using assms
  by (auto simp: pool_set_absent_def Let_def finish_def
        split: if_splits reply.splits option.splits)


lemma node_init_check:
  "node_init loads send True server port p nd weight priority lb_state =
     (case node_init loads send False server port p nd weight priority lb_state of
        Inl out \<Rightarrow> Inl out
      | Inr self \<Rightarrow> Inr (self\<lparr>check_mode := True\<rparr>))"
  by (simp add: node_init_def Let_def split: reply.splits error.splits option.splits)

lemma nodes_where_frame [simp]:
  "nodes_where keep (self\<lparr>check_mode := b\<rparr>) = nodes_where keep self"
  "nodes_where keep (self\<lparr>changed := c\<rparr>) = nodes_where keep self"
  "nodes_where keep (self\<lparr>msg := m\<rparr>) = nodes_where keep self"
  by (simp_all add: nodes_where_def nodes_def cong: sum.case_cong)

lemma nodes_frame [simp]:
  "nodes (self\<lparr>check_mode := b\<rparr>) = nodes self"
  "nodes (self\<lparr>changed := c\<rparr>) = nodes self"
  "nodes (self\<lparr>msg := m\<rparr>) = nodes self"
  by (simp_all add: nodes_def)

lemma get_current_node_frame [simp]:
  "get_current_node (self\<lparr>check_mode := b\<rparr>) = get_current_node self"
  by (simp add: get_current_node_def)

lemma node_exists_frame [simp]:
  "node_exists (self\<lparr>check_mode := b\<rparr>) = node_exists self"
  by (simp add: node_exists_def)

lemma compare_fields_frame [simp]:
  "compare_fields (self\<lparr>check_mode := b\<rparr>) changes c = compare_fields self changes c"
  by (simp add: compare_fields_def cong: sum.case_cong)

lemma after_set_nodes_exit:
  assumes "after_set_nodes loads self sent = (r, ws)" "finish r = ExitJson c m d"
  shows "c = changed self \<and> m = msg self"
  using assms
  by (auto simp: after_set_nodes_def finish_def split: prod.splits reply.splits option.splits if_splits)

lemma node_set_absent_check:
  "check_mode self \<Longrightarrow> snd (node_set_absent loads send self) = []"
  by (simp add: node_set_absent_def Let_def split: sum.splits bool.splits)

lemma node_set_present_check:
  "check_mode self \<Longrightarrow> snd (node_set_present loads send self) = []"
  by (simp add: node_set_present_def Let_def split: sum.splits list.splits prod.splits)

lemma node_set_absent_dry:
  assumes "\<not> check_mode self" "node_set_absent loads send self = (r, ws)"
    "finish r = ExitJson c m d"
  shows "node_set_absent loads send (self\<lparr>check_mode := True\<rparr>) =
           (Inr (self\<lparr>check_mode := True, changed := c, msg := m\<rparr>), [])"
proof (cases "node_exists self")
  case (Inl e)
  with assms show ?thesis by (auto simp: node_set_absent_def Let_def finish_def)
next
  case (Inr ex)
  show ?thesis
  proof (cases ex)
    case False
    with assms Inr show ?thesis by (auto simp: node_set_absent_def Let_def finish_def)
  next
    case True
    show ?thesis
    proof (cases "nodes_where False self")
      case (Inl e)
      with assms Inr True show ?thesis by (auto simp: node_set_absent_def Let_def finish_def)
    next
      case Inr2: (Inr new_nodes)
      let ?self = "self\<lparr>changed := True, msg := JDict
             [(''node'', JStr (node self)), (''pool'', JStr (pool self)),
              (''action'', JStr ''remove_node'')]\<rparr>"
      from assms Inr True Inr2
      have "after_set_nodes loads ?self (set_nodes send ?self (JList new_nodes)) = (r, ws)"
        by (simp add: node_set_absent_def Let_def)
      from after_set_nodes_exit [OF this assms(3)]
      have "c = True" "m = JDict [(''node'', JStr (node self)), (''pool'', JStr (pool self)),
              (''action'', JStr ''remove_node'')]" by simp_all
      with Inr True show ?thesis by (simp add: node_set_absent_def Let_def)
    qed
  qed
qed

lemma node_set_present_dry:
  assumes "\<not> check_mode self" "node_set_present loads send self = (r, ws)"
    "finish r = ExitJson c m d"
  shows "\<exists>d'. node_set_present loads send (self\<lparr>check_mode := True\<rparr>) =
           (Inr (self\<lparr>check_mode := True, changed := c, msg := m, pool_data := d'\<rparr>), [])"
proof (cases "get_current_node self")
  case (Inl e)
  with assms show ?thesis by (auto simp: node_set_present_def Let_def finish_def)
next
  case (Inr found)
  show ?thesis
  proof (cases found)
    case Nil
    let ?self = "self\<lparr>msg := JDict [(''node'', JStr (node self)), (''pool'', JStr (pool self)),
              (''action'', JStr ''add_node'')], changed := True\<rparr>"
    from assms Inr Nil obtain sent where
      "after_set_nodes loads ?self sent = (r, ws)"
      by (auto simp: node_set_present_def Let_def finish_def split: sum.splits)
    from after_set_nodes_exit [OF this assms(3)]
    have "c = True" "m = JDict [(''node'', JStr (node self)), (''pool'', JStr (pool self)),
              (''action'', JStr ''add_node'')]" by simp_all
    with Inr Nil have "node_set_present loads send (self\<lparr>check_mode := True\<rparr>) =
           (Inr (self\<lparr>check_mode := True, changed := c, msg := m, pool_data := pool_data self\<rparr>), [])"
      by (simp add: node_set_present_def Let_def)
    then show ?thesis by blast
  next
    case (Cons cur others)
    show ?thesis
    proof (cases "compare_fields self [(''node'', JStr (node self)), (''pool'', JStr (pool self))] cur")
      case (Inl e)
      with assms Inr Cons show ?thesis by (auto simp: node_set_present_def Let_def finish_def)
    next
      case Inr2: (Inr acc)
      obtain changes cur' chg where acc: "acc = (changes, cur', chg)" by (cases acc) auto
      show ?thesis
      proof (cases chg)
        case False
        with assms Inr Cons Inr2 acc
        have "c = False" "m = JDict changes"
          by (auto simp: node_set_present_def Let_def finish_def)
        with Inr Cons Inr2 acc False
        have "node_set_present loads send (self\<lparr>check_mode := True\<rparr>) =
           (Inr (self\<lparr>check_mode := True, changed := c, msg := m, pool_data := pool_data self\<rparr>), [])"
          by (simp add: node_set_present_def Let_def)
        then show ?thesis by blast
      next
        case True
        let ?self = "self\<lparr>changed := True, msg := JDict changes,
                 pool_data := store_node (pool_data self) (node self) cur'\<rparr>"
        from assms Inr Cons Inr2 acc True obtain sent where
          "after_set_nodes loads ?self sent = (r, ws)"
          by (auto simp: node_set_present_def Let_def finish_def split: sum.splits)
        from after_set_nodes_exit [OF this assms(3)]
        have "c = True" "m = JDict changes" by simp_all
        with Inr Cons Inr2 acc True
        have "node_set_present loads send (self\<lparr>check_mode := True\<rparr>) =
           (Inr (self\<lparr>check_mode := True, changed := c, msg := m,
                     pool_data := store_node (pool_data self) (node self) cur'\<rparr>), [])"
          by (simp add: node_set_present_def Let_def)
        then show ?thesis by blast
      qed
    qed
  qed
qed

lemma node_set_absent_snapshot:
  "check_mode self \<Longrightarrow> node_set_absent loads send self = (Inr self', ws) \<Longrightarrow>
   pool_data self' = pool_data self"
  by (auto simp: node_set_absent_def Let_def split: sum.splits bool.splits)

lemma node_set_present_add_snapshot:
  "check_mode self \<Longrightarrow> get_current_node self = Inr [] \<Longrightarrow>
   node_set_present loads send self = (Inr self', ws) \<Longrightarrow> pool_data self' = pool_data self"
  by (auto simp: node_set_present_def Let_def)


lemma node_init_check_mode:
  "node_init loads send check server port p nd weight priority lb_state = Inr self \<Longrightarrow>
   check_mode self = check"
  by (auto simp: node_init_def Let_def split: reply.splits error.splits option.splits if_splits)

lemma pool_main_check_writes:
  "snd (pool_main loads send True state server port p props) = []"
proof (cases "pool_init loads send True server port p props")
  case (Inl out)
  then show ?thesis by (simp add: pool_main_def)
next
  case (Inr self)
  then have "check_mode self" by (simp add: pool_init_check_mode)
  with Inr show ?thesis
    by (simp add: pool_main_def case_prod_beta pool_set_present_check pool_set_absent_check)
qed

lemma node_main_check_writes:
  "snd (node_main loads send True state server port p nd weight priority lb_state) = []"
proof (cases "node_init loads send True server port p nd weight priority lb_state")
  case (Inl out)
  then show ?thesis by (simp add: node_main_def)
next
  case (Inr self)
  then have "check_mode self" by (simp add: node_init_check_mode)
  with Inr show ?thesis
    by (simp add: node_main_def case_prod_beta node_set_present_check node_set_absent_check)
qed

lemma pool_main_dry:
  assumes "pool_main loads send False state server port p props = (ExitJson c m d, ws)"
    "pool_init loads send False server port p props = Inr self"
  shows "pool_main loads send True state server port p props =
           (ExitJson c m (pool_data self), [])"
proof -
  have nc: "\<not> check_mode self" using assms(2) by (simp add: pool_init_check_mode)
  have init: "pool_init loads send True server port p props = Inr (self\<lparr>check_mode := True\<rparr>)"
    by (simp add: pool_init_check assms(2))
  consider (present) "state = ''present''" | (absent) "state = ''absent''"
    | (other) "state \<noteq> ''present''" "state \<noteq> ''absent''" by blast
  then show ?thesis
  proof cases
    case present
    obtain r where r: "pool_set_present loads send self = (r, ws)" "finish r = ExitJson c m d"
      using assms present by (auto simp: pool_main_def split: prod.splits)
    from pool_set_present_dry [OF nc r] show ?thesis
      using init present by (simp add: pool_main_def finish_def)
  next
    case absent
    obtain r where r: "pool_set_absent send self = (r, ws)" "finish r = ExitJson c m d"
      using assms absent by (auto simp: pool_main_def split: prod.splits)
    from pool_set_absent_dry [OF nc r] show ?thesis
      using init absent by (simp add: pool_main_def finish_def)
  next
    case other
    with assms show ?thesis by (simp add: pool_main_def finish_def)
  qed
qed

lemma node_main_dry:
  assumes "node_main loads send False state server port p nd weight priority lb_state =
             (ExitJson c m d, ws)"
  shows "\<exists>d'. node_main loads send True state server port p nd weight priority lb_state =
           (ExitJson c m d', [])"
proof (cases "node_init loads send False server port p nd weight priority lb_state")
  case (Inl out)
  with assms show ?thesis by (simp add: node_main_def node_init_check)
next
  case (Inr self)
  have nc: "\<not> check_mode self" using Inr by (simp add: node_init_check_mode)
  have init: "node_init loads send True server port p nd weight priority lb_state =
                Inr (self\<lparr>check_mode := True\<rparr>)"
    by (simp add: node_init_check Inr)
  consider (present) "state = ''present''" | (absent) "state = ''absent''"
    | (other) "state \<noteq> ''present''" "state \<noteq> ''absent''" by blast
  then show ?thesis
  proof cases
    case present
    obtain r where r: "node_set_present loads send self = (r, ws)" "finish r = ExitJson c m d"
      using assms Inr present by (auto simp: node_main_def split: prod.splits)
    from node_set_present_dry [OF nc r] show ?thesis
      using init present by (auto simp: node_main_def finish_def)
  next
    case absent
    obtain r where r: "node_set_absent loads send self = (r, ws)" "finish r = ExitJson c m d"
      using assms Inr absent by (auto simp: node_main_def split: prod.splits)
    from node_set_absent_dry [OF nc r] show ?thesis
      using init absent by (simp add: node_main_def finish_def)
  next
    case other
    with assms Inr show ?thesis by (simp add: node_main_def finish_def)
  qed
qed

lemma node_main_check_snapshot:
  assumes "node_init loads send True server port p nd weight priority lb_state = Inr self"
    "state = ''absent'' \<or> get_current_node self = Inr []"
    "node_main loads send True state server port p nd weight priority lb_state =
       (ExitJson c m d, ws)"
  shows "d = pool_data self"
proof -
  have cm: "check_mode self" using assms(1) by (simp add: node_init_check_mode)
  consider (present) "state = ''present''" "get_current_node self = Inr []"
    | (absent) "state = ''absent''"
    | (other) "state \<noteq> ''present''" "state \<noteq> ''absent''" using assms(2) by blast
  then show ?thesis
  proof cases
    case present
    obtain r where r: "node_set_present loads send self = (r, ws)" "finish r = ExitJson c m d"
      using assms present by (auto simp: node_main_def split: prod.splits)
    then obtain self' where "r = Inr self'" "d = pool_data self'"
      by (auto simp: finish_def split: sum.splits abort.splits)
    with node_set_present_add_snapshot [OF cm present(2), of loads send self' ws] r
    show ?thesis by simp
  next
    case absent
    obtain r where r: "node_set_absent loads send self = (r, ws)" "finish r = ExitJson c m d"
      using assms absent by (auto simp: node_main_def split: prod.splits)
    then obtain self' where "r = Inr self'" "d = pool_data self'"
      by (auto simp: finish_def split: sum.splits abort.splits)
    with node_set_absent_snapshot [OF cm, of loads send self' ws] r
    show ?thesis by simp
  next
    case other
    with assms show ?thesis by (simp add: node_main_def finish_def)
  qed
qed

lemma select_nodes_filter:
  "select_nodes keep nd ns = Inr r \<Longrightarrow> r = filter (\<lambda>n. is_node nd n = keep) ns"
proof (induction ns arbitrary: r)
  case Nil
  then show ?case by simp
next
  case (Cons n ns)
  then show ?case
    by (auto simp: is_node_def split: sum.splits if_splits)
qed

lemma select_nodes_has_node:
  "select_nodes keep nd ns = Inr r \<Longrightarrow> n \<in> set ns \<Longrightarrow> \<exists>v. getitem n ''node'' = Inr v"
  by (induction ns arbitrary: r) (auto split: sum.splits)

lemma select_nodes_total:
  "(\<And>n. n \<in> set ns \<Longrightarrow> \<exists>v. getitem n ''node'' = Inr v) \<Longrightarrow>
   select_nodes keep nd ns = Inr (filter (\<lambda>n. is_node nd n = keep) ns)"
proof (induction ns)
  case Nil
  show ?case by simp
next
  case (Cons n ns)
  then obtain v where "getitem n ''node'' = Inr v" by auto
  moreover have "select_nodes keep nd ns = Inr (filter (\<lambda>n. is_node nd n = keep) ns)"
    using Cons by simp
  ultimately show ?case by (simp add: is_node_def)
qed

lemma replace_first_set:
  "n \<in> set (replace_first nd new ns) \<Longrightarrow> n = new \<or> n \<in> set ns"
  by (induction ns) (auto split: sum.splits if_splits)

lemma replace_first_others:
  "is_node nd new \<Longrightarrow>
   filter (\<lambda>n. \<not> is_node nd n) (replace_first nd new ns) = filter (\<lambda>n. \<not> is_node nd n) ns"
  by (induction ns) (auto simp: is_node_def split: sum.splits)

lemma map_of_update_in:
  "map_of (map (\<lambda>kv. if fst kv = k then (k, f (snd kv)) else kv) d) k' =
     (if k' = k then map_option f (map_of d k) else map_of d k')"
  by (induction d) auto

lemma getitem_update_in:
  "getitem (update_in j k f) k = (case getitem j k of Inl e \<Rightarrow> Inl e | Inr v \<Rightarrow> Inr (f v))"
  by (cases j) (simp_all add: map_of_update_in split: option.splits)

lemma nodes_store_node:
  assumes "nodes self = Inr (JList ns)"
  shows "nodes (self\<lparr>pool_data := store_node (pool_data self) nd new\<rparr>) =
           Inr (JList (replace_first nd new ns))"
  using assms
  by (auto simp: nodes_def store_node_def getitem_update_in split: sum.splits)

lemma map_of_setitem:
  "map_of (setitem d k v) k' = (if k' = k then Some v else map_of d k')"
  by (induction d) auto

lemma getitem_assign:
  "getitem c f = Inr old \<Longrightarrow>
   getitem (assign c f v) k = (if k = f then Inr v else getitem c k)"
  by (cases c) (simp_all add: map_of_setitem)


lemma compare_field_node:
  assumes "compare_field f desired (changes, c, chg) = Inr (changes', c', chg')"
  shows "getitem c' k =
           (case getitem c k of
              Inl e \<Rightarrow> Inl e
            | Inr v \<Rightarrow> Inr (if k = f \<and> truthy desired \<and> \<not> py_eq desired v then desired else v))"
proof (cases "truthy desired")
  case False
  with assms show ?thesis by (auto simp: compare_field_def split: sum.splits)
next
  case True
  then obtain cv where cv: "getitem c f = Inr cv"
    using assms by (auto simp: compare_field_def split: sum.splits)
  show ?thesis
  proof (cases "py_eq desired cv")
    case True
    with assms \<open>truthy desired\<close> cv show ?thesis
      by (auto simp: compare_field_def split: sum.splits)
  next
    case False
    with assms \<open>truthy desired\<close> cv have "c' = assign c f desired"
      by (simp add: compare_field_def)
    with cv False \<open>truthy desired\<close> show ?thesis
      by (auto simp: getitem_assign [OF cv] split: sum.splits)
  qed
qed

lemma compare_fields_node:
  assumes "compare_fields self changes c = Inr (changes', c', chg)"
  shows "getitem c' k =
           (case getitem c k of
              Inl e \<Rightarrow> Inl e
            | Inr v \<Rightarrow> Inr (if truthy (desired_of self k) \<and> \<not> py_eq (desired_of self k) v
                            then desired_of self k else v))"
proof -
  from assms obtain ch1 c1 g1 ch2 c2 g2 where
    s1: "compare_field ''state'' (desired_lb_state self) (changes, c, False) = Inr (ch1, c1, g1)"
    and s2: "compare_field ''weight'' (desired_weight self) (ch1, c1, g1) = Inr (ch2, c2, g2)"
    and s3: "compare_field ''priority'' (desired_priority self) (ch2, c2, g2) = Inr (changes', c', chg)"
    by (auto simp: compare_fields_def split: sum.splits)
  note g1 = compare_field_node [OF s1, of k]
  note g2 = compare_field_node [OF s2, of k]
  note g3 = compare_field_node [OF s3, of k]
  show ?thesis
  proof (cases "getitem c k")
    case (Inl e)
    with g1 g2 g3 show ?thesis by simp
  next
    case (Inr v)
    consider "k = ''state''" | "k = ''weight''" | "k = ''priority''"
      | "k \<noteq> ''state''" "k \<noteq> ''weight''" "k \<noteq> ''priority''" by blast
    then show ?thesis
      using g1 g2 g3 Inr by cases (simp_all add: desired_of_def)
  qed
qed



lemma compare_fields_is_node:
  assumes "compare_fields self changes c = Inr (changes', c', chg)" "is_node nd c"
  shows "is_node nd c'"
  using assms(2) compare_fields_node [OF assms(1), of "''node''"]
  by (auto simp: is_node_def desired_of_def split: sum.splits)





































lemma compare_field_changed:
  assumes "compare_field f d (ch, c, g) = Inr (ch', c', g')"
  shows "g' = (g \<or> (truthy d \<and> (case getitem c f of Inr v \<Rightarrow> \<not> py_eq d v | Inl e \<Rightarrow> False)))"
  using assms by (auto simp: compare_field_def split: if_splits sum.splits)

lemma compare_fields_changed:
  assumes "compare_fields self ch x = Inr (ch', x', chg)"
  shows "chg = node_differs self x"
proof -
  from assms obtain ch1 c1 g1 ch2 c2 g2 where
    s1: "compare_field ''state'' (desired_lb_state self) (ch, x, False) = Inr (ch1, c1, g1)"
    and s2: "compare_field ''weight'' (desired_weight self) (ch1, c1, g1) = Inr (ch2, c2, g2)"
    and s3: "compare_field ''priority'' (desired_priority self) (ch2, c2, g2) = Inr (ch', x', chg)"
    by (auto simp: compare_fields_def split: sum.splits)
  have w1: "getitem c1 ''weight'' = getitem x ''weight''"
    using compare_field_node [OF s1, of "''weight''"] by (cases "getitem x ''weight''") simp_all
  have p1: "getitem c1 ''priority'' = getitem x ''priority''"
    using compare_field_node [OF s1, of "''priority''"] by (cases "getitem x ''priority''") simp_all
  have p2: "getitem c2 ''priority'' = getitem x ''priority''"
    using compare_field_node [OF s2, of "''priority''"] p1
    by (cases "getitem x ''priority''") simp_all
  from compare_field_changed [OF s1] compare_field_changed [OF s2] compare_field_changed [OF s3]
  show ?thesis
    unfolding node_differs_def node_fields_def differs_at_def desired_of_def w1 p2
    by auto
qed

lemma compare_field_total:
  assumes "truthy d \<Longrightarrow> \<exists>v. getitem c f = Inr v"
  shows "\<exists>res. compare_field f d (ch, c, g) = Inr res"
proof (cases "truthy d")
  case False
  then show ?thesis by (simp add: compare_field_def)
next
  case True
  with assms obtain v where "getitem c f = Inr v" by blast
  with True have "compare_field f d (ch, c, g) =
      (if \<not> py_eq d v
       then Inr (setitem ch f (JDict [(''before'', v), (''after'', d)]), assign c f d, True)
       else Inr (ch, c, g))"
    by (simp add: compare_field_def)
  then show ?thesis by (cases "py_eq d v") (simp_all del: ex_simps, blast+)
qed

lemma compare_fields_total:
  assumes "node_readable self x"
  shows "\<exists>ch' x' chg. compare_fields self ch x = Inr (ch', x', chg)"
proof -
  from assms have r:
    "truthy (desired_lb_state self) \<Longrightarrow> \<exists>v. getitem x ''state'' = Inr v"
    "truthy (desired_weight self) \<Longrightarrow> \<exists>v. getitem x ''weight'' = Inr v"
    "truthy (desired_priority self) \<Longrightarrow> \<exists>v. getitem x ''priority'' = Inr v"
    by (auto simp: node_readable_def node_fields_def desired_of_def split: sum.splits)
  from compare_field_total [where d = "desired_lb_state self" and c = x and f = "''state''"
        and ch = ch and g = False] r(1)
  obtain ch1 c1 g1 where
    s1: "compare_field ''state'' (desired_lb_state self) (ch, x, False) = Inr (ch1, c1, g1)"
    by (metis prod_cases3)
  have w1: "getitem c1 ''weight'' = getitem x ''weight''"
    using compare_field_node [OF s1, of "''weight''"] by (cases "getitem x ''weight''") simp_all
  have p1: "getitem c1 ''priority'' = getitem x ''priority''"
    using compare_field_node [OF s1, of "''priority''"] by (cases "getitem x ''priority''") simp_all
  from compare_field_total [where d = "desired_weight self" and c = c1 and f = "''weight''"
        and ch = ch1 and g = g1] r(2) w1
  obtain ch2 c2 g2 where
    s2: "compare_field ''weight'' (desired_weight self) (ch1, c1, g1) = Inr (ch2, c2, g2)"
    by (metis prod_cases3)
  have p2: "getitem c2 ''priority'' = getitem x ''priority''"
    using compare_field_node [OF s2, of "''priority''"] p1
    by (cases "getitem x ''priority''") simp_all
  from compare_field_total [where d = "desired_priority self" and c = c2 and f = "''priority''"
        and ch = ch2 and g = g2] r(3) p2
  obtain ch3 c3 g3 where
    s3: "compare_field ''priority'' (desired_priority self) (ch2, c2, g2) = Inr (ch3, c3, g3)"
    by (metis prod_cases3)
  from s1 s2 s3 show ?thesis by (simp add: compare_fields_def)
qed

lemma node_no_update_write:
  assumes cur: "get_current_node self = Inr (x # others)"
    and cmp: "compare_fields self [(''node'', JStr (node self)), (''pool'', JStr (pool self))] x =
                Inr (changes, x', False)"
  shows "snd (node_set_present loads send self) = []"
  using assms by (simp add: node_set_present_def)

lemma node_update_sends:
  assumes tbl: "nodes self = Inr (JList ns)"
    and cur: "get_current_node self = Inr (x # others)"
    and real: "\<not> check_mode self"
    and cmp: "compare_fields self [(''node'', JStr (node self)), (''pool'', JStr (pool self))] x =
                Inr (changes, x', True)"
  shows "snd (node_set_present loads send self) =
           [nodes_request self (JList (filter (\<lambda>n. \<not> is_node (node self) n) ns @ [x']))]"
proof -
  let ?nd = "node self"
  from tbl cur have sel: "select_nodes True ?nd ns = Inr (x # others)"
    by (simp add: get_current_node_def nodes_where_def)
  have "x \<in> set (filter (\<lambda>n. is_node ?nd n = True) ns)"
    using select_nodes_filter [OF sel] by (metis list.set_intros(1))
  then have "is_node ?nd x" by simp
  with cmp have x': "is_node ?nd x'" by (rule compare_fields_is_node)
  let ?self = "self\<lparr>changed := True, msg := JDict changes,
                    pool_data := store_node (pool_data self) ?nd x'\<rparr>"
  have tbl': "nodes ?self = Inr (JList (replace_first ?nd x' ns))"
    using nodes_store_node [OF tbl, of ?nd x'] by (simp add: nodes_def)
  have has: "\<exists>v. getitem n ''node'' = Inr v" if "n \<in> set (replace_first ?nd x' ns)" for n
  proof -
    from replace_first_set [OF that] show ?thesis
    proof
      assume "n = x'"
      with x' show ?thesis by (auto simp: is_node_def split: sum.splits)
    next
      assume "n \<in> set ns"
      with sel show ?thesis by (rule select_nodes_has_node)
    qed
  qed
  have "nodes_where False ?self =
          Inr (filter (\<lambda>n. is_node ?nd n = False) (replace_first ?nd x' ns))"
    using select_nodes_total [of "replace_first ?nd x' ns" False ?nd] has tbl'
    by (simp add: nodes_where_def)
  then have new_nodes: "nodes_where False ?self = Inr (filter (\<lambda>n. \<not> is_node ?nd n) ns)"
    using replace_first_others [OF x', of ns] by simp
  have "snd (node_set_present loads send self) =
          [nodes_request ?self (JList (filter (\<lambda>n. \<not> is_node ?nd n) ns @ [x']))]"
    using cur cmp real new_nodes
    by (simp add: node_set_present_def Let_def set_nodes_sent after_set_nodes_writes)
  then show ?thesis by (simp add: nodes_request_def)
qed













section \<open>The claims\<close>

text \<open>
  C1. For desired and current trees that differ only at the leaf reached by \<open>a.b.c\<close>, the
  claim expects one entry with the path \<open>a.b.c\<close>. The recursive call passes the key
  alone as the parent, so the entry of a leaf at depth three carries the path \<open>b.c\<close>:
  the diff evaluated on such a pair.
\<close>

theorem pool_changes_depth3_path:
  "pool_changes [(''a'', JDict [(''b'', JDict [(''c'', JInt 1)])])]
     (JDict [(''a'', JDict [(''b'', JDict [(''c'', JInt 2)])])]) [] =
   Inr [change_entry ''b.c'' (JInt 2) (JInt 1)] \<and>
   change_entry ''b.c'' (JInt 2) (JInt 1) \<noteq> change_entry ''a.b.c'' (JInt 2) (JInt 1)"
  by (simp add: pool_changes_def change_entry_def field_path_def)

text \<open>
  C6. A desired key whose current counterpart is absent or null contributes nothing to
  the diff and is not descended into: the result, an exception included, is that of the
  desired tree without the key. The statement holds for every parent, that is at every
  level of the recursion.
\<close>

theorem pool_changes_unset_current_skipped:
  assumes "map_of cur k = None \<or> map_of cur k = Some JNull"
  shows "pool_changes new (JDict cur) parent =
         pool_changes (filter (\<lambda>(k', v). k' \<noteq> k) new) (JDict cur) parent"
proof -
  let ?new' = "filter (\<lambda>(k', v). k' \<noteq> k) new"
  have keys: "map fst ?new' = filter (\<lambda>k'. k' \<noteq> k) (map fst new)"
    by (induction new) auto
  have "pool_changes_keys (map fst ?new') ?new' (JDict cur) parent =
        pool_changes_keys (map fst ?new') new (JDict cur) parent"
    by (rule pool_changes_keys_cong) (auto simp: keys map_of_filter_key)
  also have "\<dots> = pool_changes_keys (map fst new) new (JDict cur) parent"
    unfolding keys using assms by (rule pool_changes_keys_skip)
  finally show ?thesis by (simp add: pool_changes_def)
qed

theorem pool_changes_unset_current_skipped_witness:
  "(map_of [(''a'', JNull), (''b'', JInt 1)] ''a'' = None \<or>
    map_of [(''a'', JNull), (''b'', JInt 1)] ''a'' = Some JNull) \<and>
   pool_changes [(''a'', JDict [(''c'', JInt 7)]), (''b'', JInt 2)]
     (JDict [(''a'', JNull), (''b'', JInt 1)]) [] =
   pool_changes [(''b'', JInt 2)] (JDict [(''a'', JNull), (''b'', JInt 1)]) [] \<and>
   pool_changes [(''b'', JInt 2)] (JDict [(''a'', JNull), (''b'', JInt 1)]) [] =
   Inr [change_entry ''b'' (JInt 1) (JInt 2)]"
  using pool_changes_unset_current_skipped
    [of "[(''a'', JNull), (''b'', JInt 1)]" "''a''"
        "[(''a'', JDict [(''c'', JInt 7)]), (''b'', JInt 2)]" "[]"]
  by (simp add: pool_changes_def field_path_def)

text \<open>
  C10. Under the shape precondition the diff returns a Change Record; on a pair that
  violates it (a dictionary desired where the current value is the number 5) it raises.
\<close>

theorem pool_changes_total_on_shape:
  "(shape_ok new cur \<longrightarrow> (\<exists>cs. pool_changes new (JDict cur) parent = Inr cs)) \<and>
   \<not> shape_ok [(''a'', JDict [(''b'', JInt 1)])] [(''a'', JInt 5)] \<and>
   pool_changes [(''a'', JDict [(''b'', JInt 1)])] (JDict [(''a'', JInt 5)]) [] =
     Inl AttributeError"
proof (intro conjI impI)
  assume "shape_ok new cur"
  then show "\<exists>cs. pool_changes new (JDict cur) parent = Inr cs"
    unfolding pool_changes_def by (intro pool_changes_keys_total) simp_all
next
  show "\<not> shape_ok [(''a'', JDict [(''b'', JInt 1)])] [(''a'', JInt 5)]"
    by (simp add: shape_ok.simps)
next
  show "pool_changes [(''a'', JDict [(''b'', JInt 1)])] (JDict [(''a'', JInt 5)]) [] =
     Inl AttributeError"
    by (simp add: pool_changes_def)
qed

theorem pool_changes_total_on_shape_witness:
  "shape_ok [(''a'', JDict [(''b'', JInt 1)]), (''n'', JDict [(''x'', JInt 3)])]
            [(''a'', JDict [(''b'', JInt 2)]), (''n'', JNull)] \<and>
   (\<exists>cs. pool_changes [(''a'', JDict [(''b'', JInt 1)]), (''n'', JDict [(''x'', JInt 3)])]
           (JDict [(''a'', JDict [(''b'', JInt 2)]), (''n'', JNull)]) [] = Inr cs)"
proof -
  have h: "shape_ok [(''a'', JDict [(''b'', JInt 1)]), (''n'', JDict [(''x'', JInt 3)])]
            [(''a'', JDict [(''b'', JInt 2)]), (''n'', JNull)]"
    by (simp add: shape_ok.simps)
  with pool_changes_total_on_shape
    [of "[(''a'', JDict [(''b'', JInt 1)]), (''n'', JDict [(''x'', JInt 3)])]"
        "[(''a'', JDict [(''b'', JInt 2)]), (''n'', JNull)]" "[]"]
  show ?thesis by blast
qed

text \<open>
  C9. When the first GET of the pool module answers 404, the body is decoded all the
  same: a body that decodes is kept as \<^verbatim>\<open>pool_data\<close> of a pool that does not exist, a
  body that does not decode ends the invocation with the decode failure.
\<close>

theorem pool_init_not_found_decodes_body:
  assumes "send (Get (url_of server port p)) = Response 404 body"
  shows "(\<forall>d. loads body = Some d \<longrightarrow>
            pool_init loads send check server port p props =
              Inr \<lparr>url = url_of server port p, pool = p, msg = JStr [], changed = False,
                   pool_data = d, check_mode = check,
                   properties = filter (\<lambda>(k, v). v \<noteq> JNull) props, exists = False\<rparr>) \<and>
         (loads body = None \<longrightarrow>
            pool_init loads send check server port p props = Inl (Failure (StrOf ValueError)) \<and>
            pool_main loads send check state server port p props =
              (Failure (StrOf ValueError), []))"
  using assms by (simp add: pool_init_def pool_main_def)

theorem pool_init_not_found_decodes_body_witness:
  "(\<lambda>r. Response 404 ''{}'') (Get (url_of ''lb'' ''9070'' ''web'')) = Response 404 ''{}'' \<and>
   pool_init (\<lambda>t. if t = ''{}'' then Some (JDict []) else None) (\<lambda>r. Response 404 ''{}'')
       False ''lb'' ''9070'' ''web'' [] =
     Inr \<lparr>url = url_of ''lb'' ''9070'' ''web'', pool = ''web'', msg = JStr [], changed = False,
          pool_data = JDict [], check_mode = False, properties = [], exists = False\<rparr> \<and>
   pool_main (\<lambda>t. None) (\<lambda>r. Response 404 ''{}'') False ''present'' ''lb'' ''9070'' ''web'' [] =
     (Failure (StrOf ValueError), [])"
  using pool_init_not_found_decodes_body
      [of "\<lambda>r. Response 404 ''{}''" "''lb''" "''9070''" "''web''" "''{}''"
          "\<lambda>t. if t = ''{}'' then Some (JDict []) else None" False "[]" "''present''"]
    pool_init_not_found_decodes_body
      [of "\<lambda>r. Response 404 ''{}''" "''lb''" "''9070''" "''web''" "''{}''"
          "\<lambda>t. None" False "[]" "''present''"]
  by simp

text \<open>
  C7. Asking for absence of a pool that does not exist, or of a node that is not in the
  node table, reports \<^verbatim>\<open>changed=false\<close> with the fetched state, and sends no write.
\<close>

theorem absent_when_already_absent:
  "(send (Get (url_of server port p)) = Response 404 body \<longrightarrow> loads body = Some d \<longrightarrow>
      pool_main loads send check ''absent'' server port p props =
        (ExitJson False (JDict [(''pool'', JStr p)]) d, [])) \<and>
   (node_init loads send check server port p nd weight priority lb_state = Inr self \<longrightarrow>
    get_current_node self = Inr [] \<longrightarrow>
      node_main loads send check ''absent'' server port p nd weight priority lb_state =
        (ExitJson False (JDict [(''node'', JStr nd), (''pool'', JStr p)]) (pool_data self), []))"
proof (intro conjI impI)
  assume "send (Get (url_of server port p)) = Response 404 body" "loads body = Some d"
  then show "pool_main loads send check ''absent'' server port p props =
        (ExitJson False (JDict [(''pool'', JStr p)]) d, [])"
    by (simp add: pool_main_def pool_init_def pool_set_absent_def finish_def)
next
  assume init: "node_init loads send check server port p nd weight priority lb_state = Inr self"
    and cur: "get_current_node self = Inr []"
  from init have fields: "node self = nd" "pool self = p"
    by (auto simp: node_init_def Let_def split: reply.splits error.splits if_splits option.splits)
  have "node_set_absent loads send self =
          (Inr (self\<lparr>changed := False,
                     msg := JDict [(''node'', JStr nd), (''pool'', JStr p)]\<rparr>), [])"
    using cur fields by (simp add: node_set_absent_def node_exists_def)
  then show "node_main loads send check ''absent'' server port p nd weight priority lb_state =
        (ExitJson False (JDict [(''node'', JStr nd), (''pool'', JStr p)]) (pool_data self), [])"
    using init by (simp add: node_main_def finish_def)
qed

theorem absent_when_already_absent_witness:
  "pool_main lb_loads (\<lambda>r. Response 404 ''{}'') False ''absent'' ''lb'' ''9070'' ''web'' [] =
     (ExitJson False (JDict [(''pool'', JStr ''web'')]) (JDict []), []) \<and>
   node_main lb_loads (\<lambda>r. Response 200 ''doc'') False ''absent'' ''lb'' ''9070'' ''web''
       ''10.0.0.9:80'' JNull JNull JNull =
     (ExitJson False (JDict [(''node'', JStr ''10.0.0.9:80''), (''pool'', JStr ''web'')]) lb_doc, [])"
proof -
  let ?self = "\<lparr>url = url_of ''lb'' ''9070'' ''web'', pool = ''web'', msg = JStr [],
       changed = False, pool_data = lb_doc, check_mode = False, node = ''10.0.0.9:80'',
       desired_weight = JNull, desired_priority = JNull, desired_lb_state = JNull\<rparr>"
  have a: "(\<lambda>r. Response 404 ''{}'') (Get (url_of ''lb'' ''9070'' ''web'')) = Response 404 ''{}''"
    and b: "lb_loads ''{}'' = Some (JDict [])"
    by (simp_all add: lb_loads_def)
  have c: "node_init lb_loads (\<lambda>r. Response 200 ''doc'') False ''lb'' ''9070'' ''web''
       ''10.0.0.9:80'' JNull JNull JNull = Inr ?self"
    by (simp add: node_init_def lb_loads_def)
  have d: "get_current_node ?self = Inr []"
    by (simp add: get_current_node_def nodes_where_def nodes_def lb_doc_def)
  from absent_when_already_absent
    [where send = "\<lambda>r. Response 404 ''{}''" and server = "''lb''" and port = "''9070''"
       and p = "''web''" and body = "''{}''" and loads = lb_loads and d = "JDict []"
       and check = False and props = "[]"] a b
  have pool_part: "pool_main lb_loads (\<lambda>r. Response 404 ''{}'') False ''absent'' ''lb'' ''9070'' ''web'' [] =
     (ExitJson False (JDict [(''pool'', JStr ''web'')]) (JDict []), [])"
    by blast
  from absent_when_already_absent
    [where send = "\<lambda>r. Response 200 ''doc''" and server = "''lb''" and port = "''9070''"
       and p = "''web''" and loads = lb_loads and check = False and nd = "''10.0.0.9:80''"
       and weight = JNull and priority = JNull and lb_state = JNull and self = ?self] c d
  have "node_main lb_loads (\<lambda>r. Response 200 ''doc'') False ''absent'' ''lb'' ''9070'' ''web''
       ''10.0.0.9:80'' JNull JNull JNull =
     (ExitJson False (JDict [(''node'', JStr ''10.0.0.9:80''), (''pool'', JStr ''web'')])
        (pool_data ?self), [])"
    by blast
  with pool_part show ?thesis by simp
qed


text \<open>
  C2. Only the top level of the desired tree is filtered. Below it a null is an ordinary
  leaf: where the current value is set, the null is reported as a change and is part of
  the body that is written. The run below has the desired tree \<open>{basic: {note: null}}\<close>
  against the current \<open>{basic: {note: x}}\<close>.
\<close>

theorem nested_null_reported_and_written:
  "pool_main note_loads (\<lambda>r. Response 200 ''note'') False ''present'' ''lb'' ''9070'' ''web''
       [(''basic'', JDict [(''note'', JNull)])] =
     (ExitJson True (JList [change_entry ''basic.note'' (JStr ''x'') JNull]) note_doc,
      [Put (url_of ''lb'' ''9070'' ''web'')
           (JDict [(''properties'', JDict [(''basic'', JDict [(''note'', JNull)])])])])"
  by (simp add: pool_main_def pool_init_def pool_set_present_def finish_def note_loads_def
        note_doc_def pool_changes_def field_path_def)


text \<open>
  C2, as amended. A top-level key whose desired value is null is treated exactly as a
  key that is not given: the whole invocation, its result and its writes, is that of the
  tree without the key; the key is not among the properties the object keeps, and the
  body of an update is exactly those properties.
\<close>

theorem top_level_null_is_unset:
  assumes "distinct (map fst props)" "(k, JNull) \<in> set props"
  shows "pool_main loads send check state server port p props =
           pool_main loads send check state server port p (filter (\<lambda>(k', v). k' \<noteq> k) props) \<and>
         (\<forall>self. pool_init loads send check server port p props = Inr self \<longrightarrow>
            k \<notin> fst ` set (properties self) \<and>
            (exists self \<longrightarrow>
               (\<forall>u body. Put u body \<in> set (snd (pool_set_present loads send self)) \<longrightarrow>
                  body = JDict [(''properties'', JDict (properties self))])))"
proof (intro conjI allI impI)
  have "pool_init loads send check server port p props =
        pool_init loads send check server port p (filter (\<lambda>(k', v). k' \<noteq> k) props)"
    unfolding pool_init_def filter_null_without_key [OF assms] ..
  then show "pool_main loads send check state server port p props =
           pool_main loads send check state server port p (filter (\<lambda>(k', v). k' \<noteq> k) props)"
    by (simp only: pool_main_def)
next
  fix self
  assume "pool_init loads send check server port p props = Inr self"
  then have props: "properties self = filter (\<lambda>(k, v). v \<noteq> JNull) props"
    by (rule pool_init_properties)
  have "v = JNull" if "(k, v) \<in> set props" for v
    using assms that by (meson eq_key_imp_eq_value)
  then show "k \<notin> fst ` set (properties self)"
    unfolding props by auto
next
  fix self u body
  assume "exists self" "Put u body \<in> set (snd (pool_set_present loads send self))"
  then show "body = JDict [(''properties'', JDict (properties self))]"
    by (rule pool_update_body)
qed

theorem top_level_null_is_unset_witness:
  "distinct (map fst [(''basic'', JDict [(''note'', JStr ''y'')]), (''connection'', JNull)]) \<and>
   (''connection'', JNull) \<in> set [(''basic'', JDict [(''note'', JStr ''y'')]), (''connection'', JNull)] \<and>
   pool_main note_loads (\<lambda>r. Response 200 ''note'') False ''present'' ''lb'' ''9070'' ''web''
       [(''basic'', JDict [(''note'', JStr ''y'')]), (''connection'', JNull)] =
   pool_main note_loads (\<lambda>r. Response 200 ''note'') False ''present'' ''lb'' ''9070'' ''web''
       [(''basic'', JDict [(''note'', JStr ''y'')])] \<and>
   pool_main note_loads (\<lambda>r. Response 200 ''note'') False ''present'' ''lb'' ''9070'' ''web''
       [(''basic'', JDict [(''note'', JStr ''y'')])] =
     (ExitJson True (JList [change_entry ''basic.note'' (JStr ''x'') (JStr ''y'')]) note_doc,
      [Put (url_of ''lb'' ''9070'' ''web'')
           (JDict [(''properties'', JDict [(''basic'', JDict [(''note'', JStr ''y'')])])])])"
  using top_level_null_is_unset
    [of "[(''basic'', JDict [(''note'', JStr ''y'')]), (''connection'', JNull)]" "''connection''"
        note_loads "\<lambda>r. Response 200 ''note''" False "''present''" "''lb''" "''9070''" "''web''"]
  by (simp add: pool_main_def pool_init_def pool_set_present_def finish_def note_loads_def
        note_doc_def pool_changes_def field_path_def)


text \<open>
  C3. A rejected update of a pool fails with the change list alone: the message is the
  same whatever the response body. A rejected write of the node table fails with the text
  of an IndexError, which carries neither the Change Record nor the body.
\<close>

theorem update_failure_without_body:
  "pool_main note_loads (\<lambda>r. case r of Get u \<Rightarrow> Response 200 ''note'' | _ \<Rightarrow> Response 500 ''boom'')
       False ''present'' ''lb'' ''9070'' ''web'' [(''basic'', JDict [(''note'', JStr ''y'')])] =
     (Failure (Msg (JList [change_entry ''basic.note'' (JStr ''x'') (JStr ''y'')])),
      [Put (url_of ''lb'' ''9070'' ''web'')
           (JDict [(''properties'', JDict [(''basic'', JDict [(''note'', JStr ''y'')])])])]) \<and>
   pool_main note_loads (\<lambda>r. case r of Get u \<Rightarrow> Response 200 ''note'' | _ \<Rightarrow> Response 500 ''bang'')
       False ''present'' ''lb'' ''9070'' ''web'' [(''basic'', JDict [(''note'', JStr ''y'')])] =
     (Failure (Msg (JList [change_entry ''basic.note'' (JStr ''x'') (JStr ''y'')])),
      [Put (url_of ''lb'' ''9070'' ''web'')
           (JDict [(''properties'', JDict [(''basic'', JDict [(''note'', JStr ''y'')])])])]) \<and>
   fst (node_main lb_loads (\<lambda>r. case r of Get u \<Rightarrow> Response 200 ''doc'' | _ \<Rightarrow> Response 500 ''boom'')
       False ''present'' ''lb'' ''9070'' ''web'' ''10.0.0.1:80'' (JInt 5) JNull JNull) =
     Failure (StrOf IndexError)"
  by (simp add: pool_main_def pool_init_def pool_set_present_def finish_def note_loads_def
        note_doc_def pool_changes_def field_path_def
        node_main_def node_init_def node_set_present_def get_current_node_def nodes_where_def
        nodes_def lb_loads_def lb_doc_def compare_fields_def compare_field_def store_node_def
        set_nodes_def Let_def nodes_request_def after_set_nodes_def)

text \<open>
  C3, as amended. A write that is answered with a status other than the expected one
  (201 for the creation, 204 for the removal, 200 for the update of a pool and for the
  node table) ends the invocation with a failure. For the creation and the removal of a
  pool the message is the Change Record with the response body under \<open>error\<close>; for the
  update of a pool the message is the computed change list.
\<close>

theorem rejected_write_is_fatal:
  "(\<not> exists self \<longrightarrow> pool_set_present loads send self = (r, ws) \<longrightarrow> ws = [w] \<longrightarrow>
      send w = Response sc body \<longrightarrow> sc \<noteq> 201 \<longrightarrow>
      finish r = Failure (Msg (JDict [(''pool'', JStr (pool self)),
                   (''action'', JStr ''create_pool''), (''error'', JStr body)]))) \<and>
   (pool_set_absent send self = (r, ws) \<longrightarrow> ws = [w] \<longrightarrow>
      send w = Response sc body \<longrightarrow> sc \<noteq> 204 \<longrightarrow>
      finish r = Failure (Msg (JDict [(''pool'', JStr (pool self)),
                   (''action'', JStr ''destroy_pool''), (''error'', JStr body)]))) \<and>
   (exists self \<longrightarrow> pool_set_present loads send self = (r, ws) \<longrightarrow> ws = [w] \<longrightarrow>
      send w = Response sc body \<longrightarrow> sc \<noteq> 200 \<longrightarrow>
      (\<exists>current cs. getitem (pool_data self) ''properties'' = Inr current \<and>
           pool_changes (properties self) current [] = Inr cs \<and> cs \<noteq> [] \<and>
           finish r = Failure (Msg (JList cs)))) \<and>
   (node_set_present loads send nself = (nr, ws) \<longrightarrow> ws = [w] \<longrightarrow>
      send w = Response sc body \<longrightarrow> sc \<noteq> 200 \<longrightarrow> (\<exists>m. finish nr = Failure m)) \<and>
   (node_set_absent loads send nself = (nr, ws) \<longrightarrow> ws = [w] \<longrightarrow>
      send w = Response sc body \<longrightarrow> sc \<noteq> 200 \<longrightarrow> (\<exists>m. finish nr = Failure m))"
proof (intro conjI impI)
  assume "\<not> exists self" "pool_set_present loads send self = (r, ws)" "ws = [w]"
    "send w = Response sc body" "sc \<noteq> 201"
  then show "finish r = Failure (Msg (JDict [(''pool'', JStr (pool self)),
                   (''action'', JStr ''create_pool''), (''error'', JStr body)]))"
    by (rule pool_create_rejected)
next
  assume "pool_set_absent send self = (r, ws)" "ws = [w]"
    "send w = Response sc body" "sc \<noteq> 204"
  then show "finish r = Failure (Msg (JDict [(''pool'', JStr (pool self)),
                   (''action'', JStr ''destroy_pool''), (''error'', JStr body)]))"
    by (rule pool_delete_rejected)
next
  assume "exists self" "pool_set_present loads send self = (r, ws)" "ws = [w]"
    "send w = Response sc body" "sc \<noteq> 200"
  then show "\<exists>current cs. getitem (pool_data self) ''properties'' = Inr current \<and>
           pool_changes (properties self) current [] = Inr cs \<and> cs \<noteq> [] \<and>
           finish r = Failure (Msg (JList cs))"
    by (rule pool_update_rejected)
next
  assume a: "node_set_present loads send nself = (nr, ws)" "ws = [w]"
    "send w = Response sc body" "sc \<noteq> 200"
  then obtain self' tbl where "after_set_nodes loads self'
                     (send (nodes_request nself tbl), [nodes_request nself tbl]) = (nr, ws)"
    using node_set_present_write [of loads send nself nr ws] by auto
  from node_write_rejected [OF this a(2-4)] show "\<exists>m. finish nr = Failure m" by blast
next
  assume a: "node_set_absent loads send nself = (nr, ws)" "ws = [w]"
    "send w = Response sc body" "sc \<noteq> 200"
  then obtain self' tbl where "after_set_nodes loads self'
                     (send (nodes_request nself tbl), [nodes_request nself tbl]) = (nr, ws)"
    using node_set_absent_write [of loads send nself nr ws] by auto
  from node_write_rejected [OF this a(2-4)] show "\<exists>m. finish nr = Failure m" by blast
qed

theorem rejected_write_is_fatal_witness:
  "finish (fst (pool_set_present note_loads (\<lambda>r. Response 500 ''boom'')
                  (web_pool\<lparr>exists := False\<rparr>))) =
     Failure (Msg (JDict [(''pool'', JStr ''web''), (''action'', JStr ''create_pool''),
                          (''error'', JStr ''boom'')])) \<and>
   finish (fst (pool_set_absent (\<lambda>r. Response 500 ''boom'') web_pool)) =
     Failure (Msg (JDict [(''pool'', JStr ''web''), (''action'', JStr ''destroy_pool''),
                          (''error'', JStr ''boom'')])) \<and>
   finish (fst (pool_set_present note_loads (\<lambda>r. Response 500 ''boom'') web_pool)) =
     Failure (Msg (JList [change_entry ''basic.note'' (JStr ''x'') (JStr ''y'')])) \<and>
   (\<exists>m. finish (fst (node_set_present lb_loads (\<lambda>r. Response 500 ''boom'') lb_node)) = Failure m) \<and>
   (\<exists>m. finish (fst (node_set_absent lb_loads (\<lambda>r. Response 500 ''boom'') lb_node)) = Failure m)"
proof -
  let ?send = "\<lambda>r::request. Response 500 ''boom''"
  let ?put = "Put (url_of ''lb'' ''9070'' ''web'')
              (JDict [(''properties'', JDict [(''basic'', JDict [(''note'', JStr ''y'')])])])"
  let ?del = "Delete (url_of ''lb'' ''9070'' ''web'')"
  let ?tbl1 = "JList
              [JDict [(''node'', JStr ''10.0.0.2:80''), (''state'', JStr ''active''),
                      (''weight'', JInt 1), (''priority'', JInt 1)],
               JDict [(''node'', JStr ''10.0.0.1:80''), (''state'', JStr ''active''),
                      (''weight'', JInt 5), (''priority'', JInt 1)]]"
  let ?tbl2 = "JList
              [JDict [(''node'', JStr ''10.0.0.2:80''), (''state'', JStr ''active''),
                      (''weight'', JInt 1), (''priority'', JInt 1)]]"
  obtain r1 where r1: "pool_set_present note_loads ?send (web_pool\<lparr>exists := False\<rparr>) =
                         (r1, [?put])"
    by (simp add: pool_set_present_def web_pool_def)
  obtain r2 where r2: "pool_set_absent ?send web_pool = (r2, [?del])"
    by (simp add: pool_set_absent_def web_pool_def)
  obtain r3 where r3: "pool_set_present note_loads ?send web_pool = (r3, [?put])"
    by (simp add: pool_set_present_def web_pool_def note_doc_def pool_changes_def)
  obtain r4 where r4: "node_set_present lb_loads ?send lb_node =
                         (r4, [nodes_request lb_node ?tbl1])"
    by (simp add: node_set_present_def lb_node_def get_current_node_def nodes_where_def
          nodes_def lb_doc_def compare_fields_def compare_field_def store_node_def
          set_nodes_def Let_def nodes_request_def after_set_nodes_def)
  obtain r5 where r5: "node_set_absent lb_loads ?send lb_node =
                         (r5, [nodes_request lb_node ?tbl2])"
    by (simp add: node_set_absent_def lb_node_def node_exists_def get_current_node_def
          nodes_where_def nodes_def lb_doc_def set_nodes_def Let_def nodes_request_def
          after_set_nodes_def)
  have e: "\<not> exists (web_pool\<lparr>exists := False\<rparr>)" "exists web_pool"
    "pool (web_pool\<lparr>exists := False\<rparr>) = ''web''" "pool web_pool = ''web''"
    by (simp_all add: web_pool_def)
  have cur: "getitem (pool_data web_pool) ''properties'' =
               Inr (JDict [(''basic'', JDict [(''note'', JStr ''x'')])])"
    "pool_changes (properties web_pool) (JDict [(''basic'', JDict [(''note'', JStr ''x'')])]) [] =
       Inr [change_entry ''basic.note'' (JStr ''x'') (JStr ''y'')]"
    by (simp_all add: web_pool_def note_doc_def pool_changes_def field_path_def)
  have sc: "?send ?put = Response 500 ''boom''" "?send ?del = Response 500 ''boom''"
    "?send (nodes_request lb_node ?tbl1) = Response 500 ''boom''"
    "?send (nodes_request lb_node ?tbl2) = Response 500 ''boom''" "(500::int) \<noteq> 201"
    "(500::int) \<noteq> 204" "(500::int) \<noteq> 200"
    by simp_all
  from rejected_write_is_fatal
    [where self = "web_pool\<lparr>exists := False\<rparr>" and loads = note_loads and send = ?send
       and r = r1 and ws = "[?put]" and sc = 500 and body = "''boom''" and w = ?put]
  have c1: "finish r1 =
     Failure (Msg (JDict [(''pool'', JStr ''web''), (''action'', JStr ''create_pool''),
                          (''error'', JStr ''boom'')]))"
    using r1 e sc by metis
  from rejected_write_is_fatal
    [where self = web_pool and send = ?send
       and r = r2 and ws = "[?del]" and sc = 500 and body = "''boom''" and w = ?del]
  have c2: "finish r2 =
     Failure (Msg (JDict [(''pool'', JStr ''web''), (''action'', JStr ''destroy_pool''),
                          (''error'', JStr ''boom'')]))"
    using r2 e sc by metis
  from rejected_write_is_fatal
    [where self = web_pool and loads = note_loads and send = ?send
       and r = r3 and ws = "[?put]" and sc = 500 and body = "''boom''" and w = ?put]
  have "\<exists>current cs. getitem (pool_data web_pool) ''properties'' = Inr current \<and>
           pool_changes (properties web_pool) current [] = Inr cs \<and> cs \<noteq> [] \<and>
           finish r3 = Failure (Msg (JList cs))"
    using r3 e sc by metis
  with cur have c3: "finish r3 =
     Failure (Msg (JList [change_entry ''basic.note'' (JStr ''x'') (JStr ''y'')]))"
    by auto
  from rejected_write_is_fatal
    [where nself = lb_node and loads = lb_loads and send = ?send
       and nr = r4 and ws = "[nodes_request lb_node ?tbl1]" and sc = 500 and body = "''boom''"
       and w = "nodes_request lb_node ?tbl1"]
  have c4: "\<exists>m. finish r4 = Failure m"
    using r4 sc by metis
  from rejected_write_is_fatal
    [where nself = lb_node and loads = lb_loads and send = ?send
       and nr = r5 and ws = "[nodes_request lb_node ?tbl2]" and sc = 500 and body = "''boom''"
       and w = "nodes_request lb_node ?tbl2"]
  have c5: "\<exists>m. finish r5 = Failure m"
    using r5 sc by metis
  from c1 c2 c3 c4 c5 r1 r2 r3 r4 r5 show ?thesis by simp
qed

text \<open>
  C8. In check mode an existing node whose weight differs is assigned the desired weight
  inside the fetched snapshot before the check-mode return: nothing is written, and the
  data that is reported is not the data that was fetched.
\<close>

theorem check_mode_mutates_node_snapshot:
  "node_main lb_loads (\<lambda>r. Response 200 ''doc'') True ''present'' ''lb'' ''9070'' ''web''
       ''10.0.0.1:80'' (JInt 5) JNull JNull =
     (ExitJson True
        (JDict [(''node'', JStr ''10.0.0.1:80''), (''pool'', JStr ''web''),
                (''weight'', JDict [(''before'', JInt 1), (''after'', JInt 5)])])
        (JDict [(''properties'', JDict [(''basic'', JDict [(''nodes_table'',
           JList [JDict [(''node'', JStr ''10.0.0.1:80''), (''state'', JStr ''active''),
                         (''weight'', JInt 5), (''priority'', JInt 1)],
                  JDict [(''node'', JStr ''10.0.0.2:80''), (''state'', JStr ''active''),
                         (''weight'', JInt 1), (''priority'', JInt 1)]])])])]),
      []) \<and>
   node_init lb_loads (\<lambda>r. Response 200 ''doc'') True ''lb'' ''9070'' ''web''
       ''10.0.0.1:80'' (JInt 5) JNull JNull =
     Inr \<lparr>url = url_of ''lb'' ''9070'' ''web'', pool = ''web'', msg = JStr [], changed = False,
          pool_data = lb_doc, check_mode = True, node = ''10.0.0.1:80'',
          desired_weight = JInt 5, desired_priority = JNull, desired_lb_state = JNull\<rparr> \<and>
   lb_doc \<noteq> JDict [(''properties'', JDict [(''basic'', JDict [(''nodes_table'',
           JList [JDict [(''node'', JStr ''10.0.0.1:80''), (''state'', JStr ''active''),
                         (''weight'', JInt 5), (''priority'', JInt 1)],
                  JDict [(''node'', JStr ''10.0.0.2:80''), (''state'', JStr ''active''),
                         (''weight'', JInt 1), (''priority'', JInt 1)]])])])]"
  by (simp add: node_main_def node_init_def node_set_present_def get_current_node_def nodes_where_def
        nodes_def lb_loads_def lb_doc_def compare_fields_def compare_field_def store_node_def
        finish_def)

text \<open>
  C8, as amended. In check mode no write is sent, and a run that exits in real mode
  exits in check mode with the same changed flag and the same Change Record. The
  snapshot is the fetched one in the pool module, and in the node module when the node
  is to be removed or is not in the table.
\<close>

theorem check_mode_sends_no_write:
  "snd (pool_main loads send True state server port p props) = [] \<and>
   (pool_main loads send False state server port p props = (ExitJson c m d, ws) \<longrightarrow>
    pool_init loads send False server port p props = Inr self \<longrightarrow>
      pool_main loads send True state server port p props =
        (ExitJson c m (pool_data self), [])) \<and>
   snd (node_main loads send True state server port p nd weight priority lb_state) = [] \<and>
   (node_main loads send False state server port p nd weight priority lb_state =
      (ExitJson c m d, ws) \<longrightarrow>
    (\<exists>d'. node_main loads send True state server port p nd weight priority lb_state =
           (ExitJson c m d', []))) \<and>
   (node_init loads send True server port p nd weight priority lb_state = Inr nself \<longrightarrow>
    state = ''absent'' \<or> get_current_node nself = Inr [] \<longrightarrow>
    node_main loads send True state server port p nd weight priority lb_state =
      (ExitJson c m d, ws) \<longrightarrow>
    d = pool_data nself)"
  using pool_main_check_writes pool_main_dry node_main_check_writes node_main_dry
    node_main_check_snapshot
  by (intro conjI impI) blast+

theorem check_mode_sends_no_write_witness:
  "pool_main note_loads (\<lambda>r. Response 200 ''note'') False ''present'' ''lb'' ''9070'' ''web''
       [(''basic'', JDict [(''note'', JStr ''y'')])] =
     (ExitJson True (JList [change_entry ''basic.note'' (JStr ''x'') (JStr ''y'')]) note_doc,
      [Put (url_of ''lb'' ''9070'' ''web'')
           (JDict [(''properties'', JDict [(''basic'', JDict [(''note'', JStr ''y'')])])])]) \<and>
   pool_main note_loads (\<lambda>r. Response 200 ''note'') True ''present'' ''lb'' ''9070'' ''web''
       [(''basic'', JDict [(''note'', JStr ''y'')])] =
     (ExitJson True (JList [change_entry ''basic.note'' (JStr ''x'') (JStr ''y'')]) note_doc, []) \<and>
   node_main lb_loads (\<lambda>r. Response 200 ''doc'') False ''absent'' ''lb'' ''9070'' ''web''
       ''10.0.0.1:80'' JNull JNull JNull =
     (ExitJson True (JDict [(''node'', JStr ''10.0.0.1:80''), (''pool'', JStr ''web''),
                            (''action'', JStr ''remove_node'')]) lb_doc,
      [Put (url_of ''lb'' ''9070'' ''web'')
         (JDict [(''properties'', JDict [(''basic'', JDict [(''nodes_table'', JList
              [JDict [(''node'', JStr ''10.0.0.2:80''), (''state'', JStr ''active''),
                      (''weight'', JInt 1), (''priority'', JInt 1)]])])])])]) \<and>
   node_main lb_loads (\<lambda>r. Response 200 ''doc'') True ''absent'' ''lb'' ''9070'' ''web''
       ''10.0.0.1:80'' JNull JNull JNull =
     (ExitJson True (JDict [(''node'', JStr ''10.0.0.1:80''), (''pool'', JStr ''web''),
                            (''action'', JStr ''remove_node'')]) lb_doc, [])"
proof -
  let ?send = "\<lambda>r::request. Response 200 ''note''"
  let ?nsend = "\<lambda>r::request. Response 200 ''doc''"
  let ?props = "[(''basic'', JDict [(''note'', JStr ''y'')])]"
  let ?msg = "JDict [(''node'', JStr ''10.0.0.1:80''), (''pool'', JStr ''web''),
                            (''action'', JStr ''remove_node'')]"
  let ?nself = "\<lparr>url = url_of ''lb'' ''9070'' ''web'', pool = ''web'', msg = JStr [],
       changed = False, pool_data = lb_doc, check_mode = True, node = ''10.0.0.1:80'',
       desired_weight = JNull, desired_priority = JNull, desired_lb_state = JNull\<rparr>"
  have real: "pool_main note_loads ?send False ''present'' ''lb'' ''9070'' ''web'' ?props =
     (ExitJson True (JList [change_entry ''basic.note'' (JStr ''x'') (JStr ''y'')]) note_doc,
      [Put (url_of ''lb'' ''9070'' ''web'') (JDict [(''properties'', JDict ?props)])])"
    by (simp add: pool_main_def pool_init_def pool_set_present_def finish_def note_loads_def
        note_doc_def pool_changes_def field_path_def)
  have init: "pool_init note_loads ?send False ''lb'' ''9070'' ''web'' ?props =
      Inr (web_pool\<lparr>exists := True\<rparr>)"
    by (simp add: pool_init_def note_loads_def web_pool_def)
  have nreal: "node_main lb_loads ?nsend False ''absent'' ''lb'' ''9070'' ''web''
       ''10.0.0.1:80'' JNull JNull JNull =
     (ExitJson True ?msg lb_doc,
      [Put (url_of ''lb'' ''9070'' ''web'')
         (JDict [(''properties'', JDict [(''basic'', JDict [(''nodes_table'', JList
              [JDict [(''node'', JStr ''10.0.0.2:80''), (''state'', JStr ''active''),
                      (''weight'', JInt 1), (''priority'', JInt 1)]])])])])])"
    by (simp add: node_main_def node_init_def node_set_absent_def node_exists_def Let_def
          get_current_node_def nodes_where_def nodes_def lb_loads_def lb_doc_def set_nodes_def
          nodes_request_def after_set_nodes_def finish_def)
  have ninit: "node_init lb_loads ?nsend True ''lb'' ''9070'' ''web''
       ''10.0.0.1:80'' JNull JNull JNull = Inr ?nself"
    by (simp add: node_init_def lb_loads_def)
  note pthm = check_mode_sends_no_write
    [where loads = note_loads and send = ?send and state = "''present''" and server = "''lb''"
       and port = "''9070''" and p = "''web''" and props = ?props and c = True
       and m = "JList [change_entry ''basic.note'' (JStr ''x'') (JStr ''y'')]"
       and d = note_doc and self = "web_pool\<lparr>exists := True\<rparr>"
       and ws = "[Put (url_of ''lb'' ''9070'' ''web'') (JDict [(''properties'', JDict ?props)])]"]
  from pthm real init
  have dry: "pool_main note_loads ?send True ''present'' ''lb'' ''9070'' ''web'' ?props =
     (ExitJson True (JList [change_entry ''basic.note'' (JStr ''x'') (JStr ''y'')]) note_doc, [])"
    by (simp add: web_pool_def)
  note nthm = check_mode_sends_no_write
    [where loads = lb_loads and send = ?nsend and state = "''absent''" and server = "''lb''"
       and port = "''9070''" and p = "''web''" and nd = "''10.0.0.1:80''" and weight = JNull
       and priority = JNull and lb_state = JNull and c = True and m = ?msg and nself = ?nself]
  from nthm nreal obtain d' where
    d': "node_main lb_loads ?nsend True ''absent'' ''lb'' ''9070'' ''web''
       ''10.0.0.1:80'' JNull JNull JNull = (ExitJson True ?msg d', [])"
    by blast
  with nthm ninit have "d' = pool_data ?nself" by blast
  with d' have ndry: "node_main lb_loads ?nsend True ''absent'' ''lb'' ''9070'' ''web''
       ''10.0.0.1:80'' JNull JNull JNull = (ExitJson True ?msg lb_doc, [])"
    by simp
  from real dry nreal ndry show ?thesis by blast
qed

text \<open>
  C5. An existing node whose fetched entry has every field that is asked for. When a
  desired field that is set differs from the entry (\<open>node_differs\<close>), \<^verbatim>\<open>set_present\<close>
  sends one write, the PUT of the table: the fetched table without the entries of the
  node, in their order, followed by one entry for the node, which is the first fetched
  entry of the node with each desired field that is set and differs assigned and every
  other key as it was. When no field differs nothing is written.
\<close>

theorem node_update_rewrites_table:
  assumes "nodes self = Inr (JList ns)"
    and "get_current_node self = Inr (x # others)"
    and "\<not> check_mode self"
    and "node_readable self x"
  shows "(node_differs self x \<longrightarrow>
           (\<exists>x'. snd (node_set_present loads send self) =
                    [Put (url self)
                       (JDict [(''properties'', JDict [(''basic'', JDict [(''nodes_table'',
                          JList (filter (\<lambda>n. \<not> is_node (node self) n) ns @ [x']))])])])] \<and>
                  is_node (node self) x' \<and>
                  filter (is_node (node self))
                    (filter (\<lambda>n. \<not> is_node (node self) n) ns @ [x']) = [x'] \<and>
                  (\<forall>k. getitem x' k =
                         (case getitem x k of
                            Inl e \<Rightarrow> Inl e
                          | Inr v \<Rightarrow>
                              Inr (if truthy (desired_of self k) \<and> \<not> py_eq (desired_of self k) v
                                   then desired_of self k else v))))) \<and>
         (\<not> node_differs self x \<longrightarrow> snd (node_set_present loads send self) = [])"
proof -
  from compare_fields_total [OF assms(4)] obtain changes x' chg where
    cmp: "compare_fields self [(''node'', JStr (node self)), (''pool'', JStr (pool self))] x =
            Inr (changes, x', chg)"
    by blast
  from compare_fields_changed [OF cmp] have chg: "chg = node_differs self x" .
  from assms(1,2) have "select_nodes True (node self) ns = Inr (x # others)"
    by (simp add: get_current_node_def nodes_where_def)
  from select_nodes_filter [OF this] have "x \<in> set (filter (\<lambda>n. is_node (node self) n = True) ns)"
    by (metis list.set_intros(1))
  then have "is_node (node self) x" by simp
  with cmp have x': "is_node (node self) x'" by (rule compare_fields_is_node)
  have one: "filter (is_node (node self))
                (filter (\<lambda>n. \<not> is_node (node self) n) ns @ [x']) = [x']"
    using x' by (simp add: filter_empty_conv)
  show ?thesis
  proof (cases "node_differs self x")
    case True
    with cmp chg have "compare_fields self
         [(''node'', JStr (node self)), (''pool'', JStr (pool self))] x = Inr (changes, x', True)"
      by simp
    from node_update_sends [OF assms(1-3) this, of loads send]
    have "snd (node_set_present loads send self) =
                    [Put (url self)
                       (JDict [(''properties'', JDict [(''basic'', JDict [(''nodes_table'',
                          JList (filter (\<lambda>n. \<not> is_node (node self) n) ns @ [x']))])])])]"
      by (simp add: nodes_request_def)
    with True x' one compare_fields_node [OF cmp] show ?thesis by blast
  next
    case False
    with cmp chg have "compare_fields self
         [(''node'', JStr (node self)), (''pool'', JStr (pool self))] x = Inr (changes, x', False)"
      by simp
    from node_no_update_write [OF assms(2) this, of loads send] False show ?thesis by simp
  qed
qed

theorem node_update_rewrites_table_witness:
  "nodes lb_node_drain =
     Inr (JList [JDict [(''node'', JStr ''10.0.0.1:80''), (''state'', JStr ''active''),
                        (''weight'', JInt 1), (''priority'', JInt 1)],
                 JDict [(''node'', JStr ''10.0.0.2:80''), (''state'', JStr ''active''),
                        (''weight'', JInt 1), (''priority'', JInt 1)]]) \<and>
   get_current_node lb_node_drain =
     Inr [JDict [(''node'', JStr ''10.0.0.1:80''), (''state'', JStr ''active''),
                 (''weight'', JInt 1), (''priority'', JInt 1)]] \<and>
   \<not> check_mode lb_node_drain \<and>
   node_readable lb_node_drain
     (JDict [(''node'', JStr ''10.0.0.1:80''), (''state'', JStr ''active''),
             (''weight'', JInt 1), (''priority'', JInt 1)]) \<and>
   node_differs lb_node_drain
     (JDict [(''node'', JStr ''10.0.0.1:80''), (''state'', JStr ''active''),
             (''weight'', JInt 1), (''priority'', JInt 1)]) \<and>
   (\<exists>x'. snd (node_set_present lb_loads (\<lambda>r. Response 200 ''doc'') lb_node_drain) =
           [Put (url_of ''lb'' ''9070'' ''web'')
              (JDict [(''properties'', JDict [(''basic'', JDict [(''nodes_table'',
                 JList [JDict [(''node'', JStr ''10.0.0.2:80''), (''state'', JStr ''active''),
                               (''weight'', JInt 1), (''priority'', JInt 1)], x'])])])])] \<and>
         getitem x' ''node'' = Inr (JStr ''10.0.0.1:80'') \<and>
         getitem x' ''state'' = Inr (JStr ''draining'') \<and>
         getitem x' ''weight'' = Inr (JInt 1) \<and>
         getitem x' ''priority'' = Inr (JInt 2))"
proof -
  let ?x = "JDict [(''node'', JStr ''10.0.0.1:80''), (''state'', JStr ''active''),
                   (''weight'', JInt 1), (''priority'', JInt 1)]"
  let ?y = "JDict [(''node'', JStr ''10.0.0.2:80''), (''state'', JStr ''active''),
                   (''weight'', JInt 1), (''priority'', JInt 1)]"
  let ?send = "\<lambda>r::request. Response 200 ''doc''"
  have tbl: "nodes lb_node_drain = Inr (JList [?x, ?y])"
    by (simp add: nodes_def lb_node_drain_def lb_doc_def)
  have cur: "get_current_node lb_node_drain = Inr (?x # [])"
    by (simp add: get_current_node_def nodes_where_def nodes_def lb_node_drain_def lb_doc_def)
  have real: "\<not> check_mode lb_node_drain" and nd: "node lb_node_drain = ''10.0.0.1:80''"
    and u: "url lb_node_drain = url_of ''lb'' ''9070'' ''web''"
    and des: "desired_of lb_node_drain ''weight'' = JNull"
      "desired_of lb_node_drain ''state'' = JStr ''draining''"
      "desired_of lb_node_drain ''priority'' = JInt 2"
      "desired_of lb_node_drain ''node'' = JNull"
    by (simp_all add: lb_node_drain_def desired_of_def)
  have readable: "node_readable lb_node_drain ?x"
    by (simp add: node_readable_def node_fields_def des)
  have differs: "node_differs lb_node_drain ?x"
    by (simp add: node_differs_def node_fields_def differs_at_def des)
  from node_update_rewrites_table [OF tbl cur real readable, of lb_loads ?send] differs
  obtain x' where
    ws: "snd (node_set_present lb_loads ?send lb_node_drain) =
           [Put (url lb_node_drain)
              (JDict [(''properties'', JDict [(''basic'', JDict [(''nodes_table'',
                 JList (filter (\<lambda>n. \<not> is_node (node lb_node_drain) n) [?x, ?y] @ [x']))])])])]"
    and fields: "\<forall>k. getitem x' k =
                     (case getitem ?x k of
                        Inl e \<Rightarrow> Inl e
                      | Inr v \<Rightarrow>
                          Inr (if truthy (desired_of lb_node_drain k) \<and>
                                  \<not> py_eq (desired_of lb_node_drain k) v
                               then desired_of lb_node_drain k else v))"
    by blast
  have f: "filter (\<lambda>n. \<not> is_node ''10.0.0.1:80'' n) [?x, ?y] = [?y]"
    by (simp add: is_node_def)
  from fields have "getitem x' ''node'' = Inr (JStr ''10.0.0.1:80'')"
    "getitem x' ''state'' = Inr (JStr ''draining'')"
    "getitem x' ''weight'' = Inr (JInt 1)"
    "getitem x' ''priority'' = Inr (JInt 2)"
    by (simp_all add: des)
  with ws tbl cur real readable differs show ?thesis
    unfolding nd u f by auto
qed



end
